theory Spec2Isabelle
  imports Complex_Main "HOL-Library.AList" "HOL-Library.Sublist"
begin

section \<open>Conventions of the embedding\<close>

text \<open>
  The server is a single JavaScript file. Its values are embedded as follows.
  \<^item> A JavaScript string is a \<open>string\<close>: each \<open>char\<close> is one code unit, the character
    U+0000 to U+00FF with that code (Latin-1). Among these the whitespace of \<open>\s\<close> and of
    \<open>trim\<close> is U+0009 to U+000D, U+0020 and U+00A0, and \<open>toLowerCase\<close> changes the
    letters A to Z and U+00C0 to U+00DE except U+00D7, each to the character 32 places
    further. A string with a code unit above U+00FF is not a value of the embedding.
  \<^item> A JavaScript number is the \<open>real\<close> it denotes (counts and lengths are \<open>nat\<close>); the
    value \<open>-Infinity\<close> that starts a maximum search is \<open>None\<close> of a \<open>real option\<close>. A
    comparison of two numbers is exact. In the classifier the arithmetic is that of the
    reals: \<open>Math.log\<close> is \<open>ln\<close>, and sums and quotients are not rounded. In the genre
    decision, where a tie or a test for zero decides what is returned, every sum, difference
    and quotient is rounded as the runtime rounds it, and the rounding is a parameter, see
    \<open>fpu\<close>.
  \<^item> A JavaScript \<open>Map\<close> is an association list in insertion order, read with \<open>map_of\<close>
    and written with \<open>AList.update\<close> (replace in place, or append); a \<open>Set\<close> is a list
    without repetitions, in insertion order.
  \<^item> A plain object used as a dictionary (\<open>preferenceBias\<close>, \<open>moviesById\<close>) is an
    association list of its own properties; a read of a key it does not own falls through
    to \<open>Object.prototype\<close>, see \<open>obj_get\<close>.
  \<^item> The network is a parameter: a function from the request (page number, or movie id) to
    the answer the callback receives. Callbacks are written in direct style.
\<close>

section \<open>Text normalisation and tokenising\<close>

text \<open>The characters that \<open>\s\<close> matches and \<open>trim\<close> removes: tab, line feed, vertical tab,
  form feed, carriage return, space and the no-break space U+00A0.\<close>

definition is_space :: "char \<Rightarrow> bool" where
  "is_space c =
     (c \<in> set [CHR 0x09, CHR 0x0A, CHR 0x0B, CHR 0x0C, CHR 0x0D, CHR '' '', CHR 0xA0])"

text \<open>\<open>toLowerCase\<close> on one character: the capitals are A to Z (65 to 90) and the accented
  capitals U+00C0 to U+00DE (192 to 222) without the multiplication sign U+00D7 (215).\<close>

definition to_lower :: "char \<Rightarrow> char" where
  "to_lower c =
     (if (65 \<le> (of_char c :: nat) \<and> (of_char c :: nat) \<le> 90)
         \<or> (192 \<le> (of_char c :: nat) \<and> (of_char c :: nat) \<le> 222 \<and> (of_char c :: nat) \<noteq> 215)
      then char_of ((of_char c :: nat) + 32) else c)"

definition is_lower_alnum :: "char \<Rightarrow> bool" where
  "is_lower_alnum c = ((97 \<le> (of_char c :: nat) \<and> (of_char c :: nat) \<le> 122)
                      \<or> (48 \<le> (of_char c :: nat) \<and> (of_char c :: nat) \<le> 57))"

definition is_letter :: "char \<Rightarrow> bool" where
  "is_letter c = ((97 \<le> (of_char c :: nat) \<and> (of_char c :: nat) \<le> 122)
                 \<or> (65 \<le> (of_char c :: nat) \<and> (of_char c :: nat) \<le> 90))"

text \<open>\<open>s.replace(/\s+/g, " ")\<close>: every maximal run of whitespace becomes one blank. The flag
  says whether the previous character was whitespace.\<close>

fun collapse_ws :: "bool \<Rightarrow> string \<Rightarrow> string" where
  "collapse_ws in_run [] = []"
| "collapse_ws in_run (c # cs) =
     (if is_space c
      then (if in_run then collapse_ws True cs else CHR '' '' # collapse_ws True cs)
      else c # collapse_ws False cs)"

definition trim :: "string \<Rightarrow> string" where
  "trim s = rev (dropWhile is_space (rev (dropWhile is_space s)))"

text \<open>\<open>String(s || "").toLowerCase().replace(/\s+/g, " ").trim()\<close>\<close>

definition normalize_text :: "string \<Rightarrow> string" where
  "normalize_text s = trim (collapse_ws False (map to_lower s))"

text \<open>\<open>s.split(/\s+/).filter(Boolean)\<close>: the non-empty pieces between runs of whitespace.
  The first argument is the piece being read.\<close>

fun split_ws :: "string \<Rightarrow> string \<Rightarrow> string list" where
  "split_ws cur [] = (if cur = [] then [] else [cur])"
| "split_ws cur (c # cs) =
     (if is_space c then (if cur = [] then split_ws [] cs else cur # split_ws [] cs)
      else split_ws (cur @ [c]) cs)"

definition tokenize :: "string \<Rightarrow> string list" where
  "tokenize text =
     take 120 (split_ws []
       (map (\<lambda>c. if is_lower_alnum c \<or> is_space c then c else CHR '' '') (normalize_text text)))"

definition is_name_only_bio :: "string \<Rightarrow> bool" where
  "is_name_only_bio original_bio =
     (let raw = trim original_bio in
      if raw = [] then False
      else (let cleaned = trim (map (\<lambda>c. if is_letter c \<or> is_space c then c else CHR '' '') raw);
                parts = split_ws [] cleaned
            in 1 \<le> length parts \<and> length parts \<le> 3))"

section \<open>The naive Bayes model\<close>

text \<open>\<open>m.get(k) || 0\<close> on a map of counts, and \<open>wordCounts.get(label)\<close> with the empty map
  for a label that has none.\<close>

definition get0 :: "('k \<times> nat) list \<Rightarrow> 'k \<Rightarrow> nat" where
  "get0 m k = (case map_of m k of None \<Rightarrow> 0 | Some n \<Rightarrow> n)"

definition get_map :: "('k \<times> ('t \<times> nat) list) list \<Rightarrow> 'k \<Rightarrow> ('t \<times> nat) list" where
  "get_map m k = (case map_of m k of None \<Rightarrow> [] | Some t \<Rightarrow> t)"

definition set_add :: "'a list \<Rightarrow> 'a \<Rightarrow> 'a list" where
  "set_add xs x = (if x \<in> set xs then xs else xs @ [x])"

record nb_model =
  labels :: "string list"
  wordCounts :: "(string \<times> (string \<times> nat) list) list"
  docCounts :: "(string \<times> nat) list"
  totalWords :: "(string \<times> nat) list"
  vocab :: "string list"

definition GENRE_LABELS :: "string list" where
  "GENRE_LABELS = [''Sci-Fi'', ''Action'', ''Thriller'', ''Drama'', ''Mystery'', ''Romance'']"

definition createNaiveBayesModel :: "string list \<Rightarrow> nb_model" where
  "createNaiveBayesModel ls =
     \<lparr> labels = ls,
       wordCounts = foldl (\<lambda>m l. AList.update l [] m) [] ls,
       docCounts = foldl (\<lambda>m l. AList.update l 0 m) [] ls,
       totalWords = foldl (\<lambda>m l. AList.update l 0 m) [] ls,
       vocab = [] \<rparr>"

text \<open>The body of the loop of \<open>trainOne\<close> over the tokens: \<open>m\<close> is the label's own map,
  changed in place.\<close>

definition train_token :: "string \<Rightarrow> nb_model \<Rightarrow> string \<Rightarrow> nb_model" where
  "train_token label st tok =
     (let m = get_map (wordCounts st) label in
      st\<lparr> vocab := set_add (vocab st) tok,
          wordCounts := AList.update label (AList.update tok (get0 m tok + 1) m) (wordCounts st),
          totalWords := AList.update label (get0 (totalWords st) label + 1) (totalWords st) \<rparr>)"

definition trainOne :: "string \<Rightarrow> string \<Rightarrow> nb_model \<Rightarrow> nb_model" where
  "trainOne label text st =
     (case map_of (wordCounts st) label of
        None \<Rightarrow> st
      | Some _ \<Rightarrow>
          foldl (train_token label)
            (st\<lparr> docCounts := AList.update label (get0 (docCounts st) label + 1) (docCounts st) \<rparr>)
            (tokenize text))"

text \<open>\<open>trainBatch\<close>: the samples are (label, text) pairs, trained in order.\<close>

definition trainBatch :: "(string \<times> string) list \<Rightarrow> nb_model \<Rightarrow> nb_model" where
  "trainBatch samples st = foldl (\<lambda>s (l, t). trainOne l t s) st samples"

definition SEED_TRAINING :: "(string \<times> string) list" where
  "SEED_TRAINING =
    [(''Sci-Fi'', ''software engineer backend node javascript python ai machine learning''),
     (''Sci-Fi'', ''computer science developer full stack api oauth systems''),
     (''Sci-Fi'', ''data engineer ml ai analytics sql database''),
     (''Sci-Fi'', ''robotics engineer distributed systems cloud''),
     (''Action'', ''athlete captain soccer competitive fast paced''),
     (''Action'', ''founder startup builder ship product hustle''),
     (''Action'', ''fitness gym training performance discipline''),
     (''Thriller'', ''security reverse engineering c c++ low level cryptography''),
     (''Thriller'', ''debugging deep dive intense problem solver''),
     (''Thriller'', ''firmware embedded systems hardware''),
     (''Drama'', ''designer ui ux art music film cinema writer storytelling''),
     (''Drama'', ''education teaching community culture sociology''),
     (''Drama'', ''dance theatre performance''),
     (''Mystery'', ''research investigation evidence analysis patterns''),
     (''Mystery'', ''law policy reasoning''),
     (''Romance'', ''community empathy people relationships communication''),
     (''Romance'', ''social work counseling care psychology'')]"

definition GENRE_MODEL :: nb_model where
  "GENRE_MODEL = trainBatch SEED_TRAINING (createNaiveBayesModel GENRE_LABELS)"

text \<open>\<open>predict\<close>: the score map of \<open>text\<close>, one entry per label in label order. The
  closure \<open>topTokensByLabel\<close> it returns with the scores is the function below, applied to
  the same tokens.\<close>

definition predict :: "nb_model \<Rightarrow> string \<Rightarrow> (string \<times> real) list" where
  "predict st text =
     (let tokens = tokenize text;
          vocabSize = (if length (vocab st) = 0 then 1 else length (vocab st));
          sumDocs = foldl (\<lambda>sum l. sum + get0 (docCounts st) l) 0 (labels st);
          totalDocs = (if sumDocs = 0 then 1 else sumDocs)
      in foldl (\<lambda>scores label.
           (let prior = ln (real (get0 (docCounts st) label + 1)
                            / real (totalDocs + length (labels st)));
                m = get_map (wordCounts st) label;
                denom = get0 (totalWords st) label + vocabSize;
                score = foldl (\<lambda>score tok. score + ln (real (get0 m tok + 1) / real denom))
                          prior tokens
            in AList.update label score scores)) [] (labels st))"

definition topTokensByLabel :: "nb_model \<Rightarrow> string list \<Rightarrow> string \<Rightarrow> nat \<Rightarrow> (string \<times> real) list" where
  "topTokensByLabel st tokens label k =
     (let m = get_map (wordCounts st) label;
          denom = get0 (totalWords st) label
                  + (if length (vocab st) = 0 then 1 else length (vocab st));
          tokenSet = foldl set_add [] tokens;
          contributions = map (\<lambda>tok. (tok, real (get0 m tok + 1) / real denom)) tokenSet
      in take k (sort_key (\<lambda>c. - snd c) contributions))"

text \<open>\<open>stats\<close>: labels, vocabulary size and per label (docs, words).\<close>

definition stats :: "nb_model \<Rightarrow> string list \<times> nat \<times> (string \<times> nat \<times> nat) list" where
  "stats st =
     (labels st, length (vocab st),
      map (\<lambda>l. (l, get0 (docCounts st) l, get0 (totalWords st) l)) (labels st))"

text \<open>What \<open>predict\<close> returns to its caller: the score map and the closure
  \<open>topTokensByLabel\<close>, which takes a label and a number of tokens.\<close>

record prediction =
  scores :: "(string \<times> real) list"
  top_tokens_by_label :: "string \<Rightarrow> nat \<Rightarrow> (string \<times> real) list"

definition predict_result :: "nb_model \<Rightarrow> string \<Rightarrow> prediction" where
  "predict_result st text =
     \<lparr> scores = predict st text,
       top_tokens_by_label = topTokensByLabel st (tokenize text) \<rparr>"

section \<open>Floating-point arithmetic\<close>

text \<open>The arithmetic of the runtime, as far as the genre decision uses it. \<open>rnd x\<close> is the
  double that the real number \<open>x\<close> is rounded to: the sum of two numbers \<open>a\<close> and \<open>b\<close> is
  \<open>rnd (a + b)\<close>, and so for the difference and the quotient, and a decimal literal such as
  \<open>0.35\<close> is \<open>rnd (35 / 100)\<close>. \<open>fexp\<close> is \<open>Math.exp\<close>, which the language leaves to the
  implementation. Both are parameters of the decision, so that what is proved of it holds
  whatever the rounding is. \<open>exact_fpu\<close> is the arithmetic that does not round. The numbers
  of a decision are finite: the scores of the classifier are sums of logarithms of positive
  quotients, the bias values lie between -2 and 2, and no sum or quotient of the decision
  comes near the range where a double overflows.\<close>

record fpu =
  rnd :: "real \<Rightarrow> real"
  fexp :: "real \<Rightarrow> real"

definition fadd :: "fpu \<Rightarrow> real \<Rightarrow> real \<Rightarrow> real" where
  "fadd fp a b = rnd fp (a + b)"

definition fsub :: "fpu \<Rightarrow> real \<Rightarrow> real \<Rightarrow> real" where
  "fsub fp a b = rnd fp (a - b)"

definition fdiv :: "fpu \<Rightarrow> real \<Rightarrow> real \<Rightarrow> real" where
  "fdiv fp a b = rnd fp (a / b)"

definition exact_fpu :: fpu where
  "exact_fpu = \<lparr> rnd = (\<lambda>x. x), fexp = exp \<rparr>"

text \<open>The running maximum of \<open>softmaxFromLogScores\<close> and of the winner search: \<open>None\<close> is
  \<open>-Infinity\<close>, below every number.\<close>

definition gt_best :: "real \<Rightarrow> real option \<Rightarrow> bool" where
  "gt_best v best = (case best of None \<Rightarrow> True | Some b \<Rightarrow> v > b)"

definition softmaxFromLogScores :: "fpu \<Rightarrow> (string \<times> real) list \<Rightarrow> (string \<times> real) list" where
  "softmaxFromLogScores fp scoreMap =
     (case foldl (\<lambda>mx v. if gt_best v mx then Some v else mx) None (map snd scoreMap) of
        None \<Rightarrow> []
      | Some mx \<Rightarrow>
          (let exps = map (\<lambda>(k, v). (k, fexp fp (fsub fp v mx))) scoreMap;
               sum = foldl (\<lambda>s (k, e). fadd fp s e) 0 exps
           in map (\<lambda>(k, e). (k, fdiv fp e (if sum = 0 then 1 else sum))) exps))"

section \<open>The genre decision\<close>

text \<open>\<open>m.get(g) || 0\<close> on a map of numbers, and \<open>priors.set(g, priors.get(g) + w)\<close>.\<close>

definition getr :: "(string \<times> real) list \<Rightarrow> string \<Rightarrow> real" where
  "getr m k = (case map_of m k of None \<Rightarrow> 0 | Some v \<Rightarrow> v)"

definition add_prior :: "fpu \<Rightarrow> (string \<times> real) list \<Rightarrow> string \<Rightarrow> real \<Rightarrow> (string \<times> real) list" where
  "add_prior fp p g w = AList.update g (fadd fp (getr p g) w) p"

definition init_bias :: "(string \<times> real) list" where
  "init_bias = map (\<lambda>g. (g, 0)) GENRE_LABELS"

text \<open>\<open>v.toFixed(d)\<close>: the decimal with \<open>d\<close> places nearest to \<open>v\<close>, a tie going away from
  zero. The debug output has \<open>+v.toFixed(d)\<close>, the number that decimal is read as.\<close>

definition to_fixed :: "nat \<Rightarrow> real \<Rightarrow> real" where
  "to_fixed d v =
     (if v < 0 then - (real_of_int \<lfloor>- v * 10 ^ d + 1 / 2\<rfloor> / 10 ^ d)
      else real_of_int \<lfloor>v * 10 ^ d + 1 / 2\<rfloor> / 10 ^ d)"

definition rounded_to :: "fpu \<Rightarrow> nat \<Rightarrow> (string \<times> real) list \<Rightarrow> (string \<times> real) list" where
  "rounded_to fp d m = map (\<lambda>(k, v). (k, rnd fp (to_fixed d v))) m"

text \<open>The conditions of the two location rules, on the normalised location.\<close>

definition nyc_location :: "string \<Rightarrow> bool" where
  "nyc_location locNorm =
     (sublist ''new york'' locNorm \<or> sublist ''nyc'' locNorm \<or> locNorm = ''ny'')"

definition tech_hub_location :: "string \<Rightarrow> bool" where
  "tech_hub_location locNorm =
     (sublist ''san francisco'' locNorm \<or> sublist ''bay area'' locNorm
      \<or> sublist ''seattle'' locNorm)"

text \<open>The heuristic block of \<open>choose_genre_deep\<close>: the priors start at zero for every label;
  each of the four rules adds its weight once and leaves a note (the arrow of the notes is
  written \<open>->\<close> here).\<close>

definition heuristic_priors :: "fpu \<Rightarrow> string \<Rightarrow> string \<Rightarrow> (string \<times> real) list \<times> string list" where
  "heuristic_priors fp bio location =
     (let bioRaw = trim bio;
          locRaw = trim location;
          bioNorm = normalize_text bioRaw;
          locNorm = normalize_text locRaw;
          p0 = map (\<lambda>g. (g, 0)) GENRE_LABELS;
          n0 = [];
          (p1, n1) = (if bioNorm = [] then
                        (add_prior fp p0 ''Drama'' (rnd fp (7 / 10)),
                         n0 @ [''No bio -> slight prior toward Drama (broad default).''])
                      else (p0, n0));
          (p2, n2) = (if bioRaw \<noteq> [] \<and> is_name_only_bio bioRaw then
                        (add_prior fp p1 ''Thriller'' (rnd fp (9 / 10)),
                         n1 @ [''Name-only bio -> prior toward Thriller (engagement baseline).''])
                      else (p1, n1));
          (p3, n3) = (if nyc_location locNorm then
                        (add_prior fp p2 ''Action'' (rnd fp (35 / 100)),
                         n2 @ [''NYC location -> small Action prior (urban pace).''])
                      else (p2, n2));
          (p4, n4) = (if tech_hub_location locNorm then
                        (add_prior fp p3 ''Sci-Fi'' (rnd fp (35 / 100)),
                         n3 @ [''Tech hub location -> small Sci-Fi prior.''])
                      else (p3, n3))
      in (p4, n4))"

text \<open>The bias block: every label's bias, when it is not zero, is added to its prior. The
  bias passed by \<open>run_pipeline\<close> is always an object with numeric values.\<close>

definition bias_priors :: "fpu \<Rightarrow> (string \<times> real) list \<Rightarrow> (string \<times> real) list \<Rightarrow> (string \<times> real) list" where
  "bias_priors fp priors userBias =
     foldl (\<lambda>p g. (let v = getr userBias g in if v \<noteq> 0 then add_prior fp p g v else p))
       priors GENRE_LABELS"

text \<open>The loop that fills \<open>combined\<close>:
  \<open>combined.set(g, (probs.get(g) || 0) + (priors.get(g) || 0))\<close> for every label.\<close>

definition combine :: "fpu \<Rightarrow> (string \<times> real) list \<Rightarrow> (string \<times> real) list \<Rightarrow> (string \<times> real) list" where
  "combine fp probs priors =
     map (\<lambda>g. (g, fadd fp (getr probs g) (getr priors g))) GENRE_LABELS"

definition priority :: "string list" where
  "priority = [''Sci-Fi'', ''Action'', ''Thriller'', ''Mystery'', ''Drama'', ''Romance'']"

text \<open>The winner loop: the state is (\<open>bestGenre\<close>, \<open>bestScore\<close>), started at the first label
  of the priority list and \<open>-Infinity\<close>. Every label of the list has a combined score.\<close>

definition choose_winner :: "(string \<times> real) list \<Rightarrow> string \<times> real option" where
  "choose_winner combined =
     foldl (\<lambda>(bestGenre, bestScore) g.
              (let s = getr combined g in
               if gt_best s bestScore then (g, Some s) else (bestGenre, bestScore)))
       (hd priority, None) priority"

record decision_debug =
  ml_probs :: "(string \<times> real) list"
  priors :: "(string \<times> real) list"
  combined :: "(string \<times> real) list"
  top_tokens :: "(string \<times> real) list"

record decision =
  genre :: string
  confidence :: real
  heuristicNotes :: "string list"
  debug :: decision_debug

text \<open>\<open>choose_genre_deep\<close>. Its two parameters before the bio are the arithmetic of the
  runtime and \<open>GENRE_MODEL.predict\<close>, the method of the shared classifier that it calls on
  the joined text. The total of the confidence is
  \<open>[...combined.values()].reduce((a, b) => a + b, 0) || 1\<close>: the values are added from the
  left, in label order, and a sum that comes out as 0 is replaced by 1. The rationale string
  is a rendering of the fields below and of the heuristic notes; it is not modelled.\<close>

definition choose_genre_deep ::
  "fpu \<Rightarrow> (string \<Rightarrow> prediction) \<Rightarrow> string \<Rightarrow> string \<Rightarrow> (string \<times> real) list \<Rightarrow> decision" where
  "choose_genre_deep fp model_predict bio location userBias =
     (let (hp, notes) = heuristic_priors fp bio location;
          pr = bias_priors fp hp userBias;
          joined = trim (trim bio @ '' '' @ trim location);
          ml = model_predict joined;
          probs = softmaxFromLogScores fp (scores ml);
          comb = combine fp probs pr;
          bestGenre = fst (choose_winner comb);
          sum = foldl (\<lambda>a b. fadd fp a b) 0 (map snd comb);
          total = (if sum = 0 then 1 else sum);
          conf = fdiv fp (getr comb bestGenre) total;
          topTokens = top_tokens_by_label ml bestGenre 6
      in \<lparr> genre = bestGenre,
           confidence = conf,
           heuristicNotes = notes,
           debug = \<lparr> ml_probs = rounded_to fp 4 probs,
                     priors = rounded_to fp 3 pr,
                     combined = rounded_to fp 4 comb,
                     top_tokens = topTokens \<rparr> \<rparr>)"

section \<open>The candidate-fetch pipeline\<close>

text \<open>A JSON object of the catalogue, search hit or detail record: the fields the server
  reads. A missing field is the empty string: wherever the server reads one of these
  fields, \<open>undefined\<close> and the empty string behave alike (both are false, neither equals
  \<open>"False"\<close>, neither parses as a number, and the training text skips both).\<close>

record movie =
  imdbID :: string
  Title :: string
  Genre :: string
  Plot :: string
  Actors :: string
  Director :: string
  Writer :: string
  Year :: string
  imdbRating :: string
  Response :: string

text \<open>What \<open>https_get_json\<close> hands to the callback. For a search page: an error; the value
  \<open>null\<close>; or an object with its \<open>Response\<close>, its \<open>Error\<close> and its \<open>Search\<close> (\<open>None\<close> when
  that is not an array; an element that is \<open>null\<close> is \<open>None\<close>). For a detail request: an
  error, \<open>null\<close>, or the record.\<close>

datatype search_reply =
    SearchFailed string
  | SearchNull
  | SearchJson string string "movie option list option"

datatype detail_reply =
    DetailFailed string
  | DetailNull
  | DetailJson movie

datatype step =
    StepSearch nat
  | StepSearchPageEmpty nat string
  | StepFinalCandidates nat
  | StepFilteredOut string string

datatype request = ReqSearch nat | ReqDetail string

text \<open>The debug trail, and next to it the requests sent to the catalogue, in order.\<close>

record trail =
  steps :: "step list"
  requests :: "request list"

definition push_step :: "step \<Rightarrow> trail \<Rightarrow> trail" where
  "push_step s dbg = dbg\<lparr> steps := steps dbg @ [s] \<rparr>"

definition push_request :: "request \<Rightarrow> trail \<Rightarrow> trail" where
  "push_request r dbg = dbg\<lparr> requests := requests dbg @ [r] \<rparr>"

definition MAX_PAGES :: nat where
  "MAX_PAGES = 5"

text \<open>\<open>Number.isFinite(rating) && rating >= min_rating\<close>, where \<open>rating\<close> is
  \<open>parseFloat(movie.imdbRating)\<close>. The parameter \<open>pf\<close> is \<open>parseFloat\<close>: \<open>Some r\<close> when the
  string parses to the finite number \<open>r\<close>, \<open>None\<close> when it gives \<open>NaN\<close> or an infinity.\<close>

definition passes :: "(string \<Rightarrow> real option) \<Rightarrow> real \<Rightarrow> movie \<Rightarrow> bool" where
  "passes pf min_rating m =
     (case pf (imdbRating m) of None \<Rightarrow> False | Some rating \<Rightarrow> rating \<ge> min_rating)"

text \<open>\<open>fetch_details_sequential\<close>: \<open>detail\<close> is the answer of the catalogue to the detail
  request for an id. The limit is a count (the caller passes an integer from 1 to 10), the
  minimum rating a number. The list \<open>acc\<close> is extended by \<open>push\<close>; the recursion ends
  because \<open>i\<close> grows towards the number of candidates.\<close>

function fetch_details_sequential ::
  "(string \<Rightarrow> detail_reply) \<Rightarrow> (string \<Rightarrow> real option) \<Rightarrow> movie list \<Rightarrow> nat \<Rightarrow> movie list
     \<Rightarrow> nat \<Rightarrow> real \<Rightarrow> trail \<Rightarrow> string option \<times> movie list \<times> trail" where
  "fetch_details_sequential detail pf candidates i acc limit min_rating dbg =
     (if length acc \<ge> limit then (None, acc, dbg)
      else if i \<ge> length candidates then (None, acc, dbg)
      else if imdbID (candidates ! i) = [] then
        fetch_details_sequential detail pf candidates (i + 1) acc limit min_rating dbg
      else
        (let mid = imdbID (candidates ! i);
             dbg1 = push_request (ReqDetail mid) dbg
         in case detail mid of
              DetailJson m \<Rightarrow>
                if Response m \<noteq> ''False'' then
                  (if passes pf min_rating m then
                     fetch_details_sequential detail pf candidates (i + 1) (acc @ [m])
                       limit min_rating dbg1
                   else
                     fetch_details_sequential detail pf candidates (i + 1) acc limit min_rating
                       (push_step (StepFilteredOut mid (imdbRating m)) dbg1))
                else fetch_details_sequential detail pf candidates (i + 1) acc limit min_rating dbg1
            | _ \<Rightarrow> fetch_details_sequential detail pf candidates (i + 1) acc limit min_rating dbg1))"
  by pat_completeness auto
termination
  by (relation "measure (\<lambda>(detail, pf, candidates, i, acc, limit, min_rating, dbg).
                   length candidates - i)") auto

text \<open>\<open>finish\<close> of \<open>omdb_search_then_fill\<close>.\<close>

definition finish ::
  "(string \<Rightarrow> detail_reply) \<Rightarrow> (string \<Rightarrow> real option) \<Rightarrow> nat \<Rightarrow> real \<Rightarrow> movie list \<Rightarrow> trail
     \<Rightarrow> string option \<times> movie list \<times> trail" where
  "finish detail pf limit min_rating candidates dbg =
     (let dbg1 = push_step (StepFinalCandidates (length candidates)) dbg in
      if length candidates = 0 then (None, [], dbg1)
      else fetch_details_sequential detail pf candidates 0 [] limit min_rating dbg1)"

text \<open>The loop over one page's results: a result that is not \<open>null\<close>, has an id and whose id
  was not seen is recorded as seen and appended.\<close>

definition add_result :: "string set \<times> movie list \<Rightarrow> movie option \<Rightarrow> string set \<times> movie list" where
  "add_result sc r =
     (case r of
        None \<Rightarrow> sc
      | Some m \<Rightarrow>
          if imdbID m \<noteq> [] \<and> imdbID m \<notin> fst sc then (insert (imdbID m) (fst sc), snd sc @ [m])
          else sc)"

text \<open>How \<open>fetch_page\<close> leaves the paging: by \<open>cb(err, [], debug)\<close>, or by \<open>finish()\<close> with
  the candidates it has.\<close>

datatype paging = Fatal string trail | Finish "movie list" trail

function fetch_page ::
  "(nat \<Rightarrow> search_reply) \<Rightarrow> nat \<Rightarrow> string set \<Rightarrow> movie list \<Rightarrow> trail \<Rightarrow> paging" where
  "fetch_page search page seen candidates dbg =
     (let dbg1 = push_request (ReqSearch page) (push_step (StepSearch page) dbg) in
      case search page of
        SearchFailed err \<Rightarrow> Fatal err dbg1
      | SearchNull \<Rightarrow> Finish candidates (push_step (StepSearchPageEmpty page ''Unknown'') dbg1)
      | SearchJson response error results \<Rightarrow>
          if response = ''False'' then
            Finish candidates
              (push_step (StepSearchPageEmpty page (if error \<noteq> [] then error else ''Unknown'')) dbg1)
          else
            (let pageResults = (case results of None \<Rightarrow> [] | Some rs \<Rightarrow> rs);
                 sc = foldl add_result (seen, candidates) pageResults
             in if page \<ge> MAX_PAGES \<or> length (snd sc) \<ge> 45 then Finish (snd sc) dbg1
                else fetch_page search (page + 1) (fst sc) (snd sc) dbg1))"
  by pat_completeness auto
termination
  by (relation "measure (\<lambda>(search, page, seen, candidates, dbg). MAX_PAGES - page)") auto

text \<open>\<open>omdb_search_then_fill\<close>: \<open>search\<close> answers the search for the term at a page,
  \<open>detail\<close> answers the detail request for an id. The result is what the callback gets:
  the error if any, the movies, the trail.\<close>

definition omdb_search_then_fill ::
  "(string \<Rightarrow> nat \<Rightarrow> search_reply) \<Rightarrow> (string \<Rightarrow> detail_reply) \<Rightarrow> (string \<Rightarrow> real option)
     \<Rightarrow> string \<Rightarrow> nat \<Rightarrow> real \<Rightarrow> string option \<times> movie list \<times> trail" where
  "omdb_search_then_fill search detail pf search_term limit min_rating =
     (case fetch_page (search search_term) 1 {} [] \<lparr> steps = [], requests = [] \<rparr> of
        Fatal err dbg \<Rightarrow> (Some err, [], dbg)
      | Finish candidates dbg \<Rightarrow> finish detail pf limit min_rating candidates dbg)"

section \<open>The feedback loop\<close>

text \<open>Reading \<open>obj[k]\<close> on a plain object: its own property; else the property of that name
  that every object inherits from \<open>Object.prototype\<close> (a function or an object, so a true
  value with none of the movie fields); else \<open>undefined\<close>.\<close>

datatype 'a js_prop = Own 'a | Inherited | Undefined

definition OBJECT_PROTOTYPE_KEYS :: "string list" where
  "OBJECT_PROTOTYPE_KEYS =
     [''constructor'', ''__proto__'', ''hasOwnProperty'', ''isPrototypeOf'',
      ''propertyIsEnumerable'', ''toLocaleString'', ''toString'', ''valueOf'',
      ''__defineGetter__'', ''__defineSetter__'', ''__lookupGetter__'', ''__lookupSetter__'']"

definition obj_get :: "(string \<times> 'a) list \<Rightarrow> string \<Rightarrow> 'a js_prop" where
  "obj_get obj k =
     (case map_of obj k of
        Some v \<Rightarrow> Own v
      | None \<Rightarrow> if k \<in> set OBJECT_PROTOTYPE_KEYS then Inherited else Undefined)"

record last_run =
  last_genre :: string
  moviesById :: "(string \<times> movie) list"
  ts :: nat

text \<open>The session entry: the fields the feedback handler reads. The stored genre is the
  genre of a decision, so one of the six labels.\<close>

record session =
  preferenceBias :: "(string \<times> real) list option"
  last :: "last_run option"

definition clamp_num :: "real \<Rightarrow> real \<Rightarrow> real \<Rightarrow> real" where
  "clamp_num n lo hi = max lo (min hi n)"

definition STEP :: real where
  "STEP = 0.25"

text \<open>The text of a movie for training: its fields that are not empty, joined by blanks.
  An inherited value has none of the fields.\<close>

fun join_blank :: "string list \<Rightarrow> string" where
  "join_blank [] = []"
| "join_blank [x] = x"
| "join_blank (x # y # ys) = x @ '' '' @ join_blank (y # ys)"

definition build_movie_training_text :: "movie js_prop \<Rightarrow> string" where
  "build_movie_training_text p =
     (case p of
        Own m \<Rightarrow>
          join_blank (filter (\<lambda>f. f \<noteq> [])
            [Title m, Genre m, Plot m, Actors m, Director m, Writer m, Year m])
      | _ \<Rightarrow> [])"

datatype response =
    Rejected nat string
  | Accepted string string string "(string \<times> real) list"
      "string list \<times> nat \<times> (string \<times> nat \<times> nat) list"

text \<open>\<open>handle_feedback\<close>: the session of the request if any, the parsed body (an error of
  the parser, or its \<open>imdbID\<close> and \<open>action\<close>), and the shared classifier. It returns the
  answer, the session entry and the classifier as they are afterwards.\<close>

definition handle_feedback ::
  "session option \<Rightarrow> string + string \<times> string \<Rightarrow> nb_model \<Rightarrow> response \<times> session option \<times> nb_model" where
  "handle_feedback sess body gm =
     (case sess of
        None \<Rightarrow> (Rejected 401 ''Not logged in.'', sess, gm)
      | Some s \<Rightarrow>
         (case body of
            Inl err \<Rightarrow> (Rejected 400 err, sess, gm)
          | Inr (rawID, rawAction) \<Rightarrow>
             (let mid = trim rawID;
                  action = map to_lower (trim rawAction)
              in if mid = [] \<or> (action \<noteq> ''like'' \<and> action \<noteq> ''dislike'') then
                   (Rejected 400 ''Expected { imdbID, action: like|dislike }'', sess, gm)
                 else
                   (case last s of
                      None \<Rightarrow>
                        (Rejected 400 ''No active recommendation session to provide feedback on.'',
                         sess, gm)
                    | Some lr \<Rightarrow>
                        if last_genre lr = [] then
                          (Rejected 400 ''No active recommendation session to provide feedback on.'',
                           sess, gm)
                        else
                          (case obj_get (moviesById lr) mid of
                             Undefined \<Rightarrow>
                               (Rejected 404 ''Movie not found in last recommendation results.'',
                                sess, gm)
                           | found \<Rightarrow>
                              (let chosenGenre = last_genre lr;
                                   bias = (case preferenceBias s of None \<Rightarrow> init_bias | Some b \<Rightarrow> b);
                                   bias1 =
                                     (if action = ''like'' then
                                        AList.update chosenGenre
                                          (clamp_num (getr bias chosenGenre + STEP) (- 2) 2) bias
                                      else
                                        AList.update chosenGenre
                                          (clamp_num (getr bias chosenGenre - STEP) (- 2) 2) bias);
                                   gm1 = (if action = ''like'' then
                                            trainOne chosenGenre (build_movie_training_text found) gm
                                          else gm)
                               in (Accepted action mid chosenGenre bias1 (stats gm1),
                                   Some (s\<lparr> preferenceBias := Some bias1 \<rparr>), gm1)))))))"

text \<open>What happens to a session over time: feedback requests, and recommendation runs,
  each of which replaces the last run wholesale and leaves the bias alone.\<close>

datatype event = Feedback "string + string \<times> string" | Run last_run

definition apply_event :: "session \<times> nb_model \<Rightarrow> event \<Rightarrow> session \<times> nb_model" where
  "apply_event sg ev =
     (case ev of
        Run lr \<Rightarrow> ((fst sg)\<lparr> last := Some lr \<rparr>, snd sg)
      | Feedback body \<Rightarrow>
          (case handle_feedback (Some (fst sg)) body (snd sg) of
             (_, Some s1, gm1) \<Rightarrow> (s1, gm1)
           | (_, None, gm1) \<Rightarrow> (fst sg, gm1)))"

text \<open>The session entry as \<open>handle_github_callback\<close> creates it.\<close>

definition new_session :: session where
  "new_session = \<lparr> preferenceBias = Some init_bias, last = None \<rparr>"

section \<open>The specification's formulas\<close>

text \<open>The invariant of the classifier state: every label has a word map, and no other key
  has one; no word map has a key twice and the vocabulary has no word twice (they are a
  \<open>Map\<close> and a \<open>Set\<close>); a label's stored total is the sum of its word counts; the
  vocabulary is the union of the labels' words.\<close>

definition nb_inv :: "nb_model \<Rightarrow> bool" where
  "nb_inv st =
     (fst ` set (wordCounts st) = set (labels st)
      \<and> distinct (vocab st)
      \<and> (\<forall>l \<in> set (labels st). distinct (map fst (get_map (wordCounts st) l)))
      \<and> (\<forall>l \<in> set (labels st).
            get0 (totalWords st) l = sum_list (map snd (get_map (wordCounts st) l)))
      \<and> set (vocab st) = (\<Union>l \<in> set (labels st). fst ` set (get_map (wordCounts st) l)))"

text \<open>Growth: from \<open>s\<close> to \<open>s'\<close> no document count, total, word count, word key or
  vocabulary entry is lost.\<close>

definition nb_le :: "nb_model \<Rightarrow> nb_model \<Rightarrow> bool" where
  "nb_le s s' =
     ((\<forall>l. get0 (docCounts s) l \<le> get0 (docCounts s') l)
      \<and> (\<forall>l. get0 (totalWords s) l \<le> get0 (totalWords s') l)
      \<and> (\<forall>l tok. get0 (get_map (wordCounts s) l) tok \<le> get0 (get_map (wordCounts s') l) tok)
      \<and> (\<forall>l. fst ` set (get_map (wordCounts s) l) \<subseteq> fst ` set (get_map (wordCounts s') l))
      \<and> set (vocab s) \<subseteq> set (vocab s'))"

text \<open>The log-score of a label as the specification words it: the logarithm of the
  smoothed share of the label's documents, plus, for every token, the logarithm of the
  smoothed share of the token among the label's tokens; the vocabulary size and the number
  of documents are taken as at least 1.\<close>

definition laplace_log_score :: "nb_model \<Rightarrow> string list \<Rightarrow> string \<Rightarrow> real" where
  "laplace_log_score st toks label =
     ln (real (get0 (docCounts st) label + 1)
         / real (max 1 (sum_list (map (get0 (docCounts st)) (labels st))) + length (labels st)))
     + (\<Sum>tok \<leftarrow> toks.
          ln (real (get0 (get_map (wordCounts st) label) tok + 1)
              / real (get0 (totalWords st) label + max 1 (length (vocab st)))))"

text \<open>The three maps of a decision: the priors after the heuristic rules and the bias, the
  softmax probabilities of the classifier's scores on the joined text, and the combined
  map.\<close>

definition decision_priors :: "fpu \<Rightarrow> string \<Rightarrow> string \<Rightarrow> (string \<times> real) list \<Rightarrow> (string \<times> real) list" where
  "decision_priors fp bio location userBias =
     bias_priors fp (fst (heuristic_priors fp bio location)) userBias"

definition decision_probs :: "fpu \<Rightarrow> (string \<Rightarrow> prediction) \<Rightarrow> string \<Rightarrow> string \<Rightarrow> (string \<times> real) list" where
  "decision_probs fp model_predict bio location =
     softmaxFromLogScores fp (scores (model_predict (trim (trim bio @ '' '' @ trim location))))"

text \<open>The combined score of a label in a decision, as the specification words it: the
  softmax probability of the label plus its prior, the sum being the one the runtime
  computes.\<close>

definition combined_score ::
  "fpu \<Rightarrow> (string \<Rightarrow> prediction) \<Rightarrow> string \<Rightarrow> string \<Rightarrow> (string \<times> real) list \<Rightarrow> string \<Rightarrow> real" where
  "combined_score fp model_predict bio location userBias g =
     fadd fp (getr (decision_probs fp model_predict bio location) g)
             (getr (decision_priors fp bio location userBias) g)"


text \<open>What the rounding of IEEE doubles to the nearest has that the theorems on ranges
  use: it keeps the order, a rounded number is rounded to itself, the multiples of 1/4 up
  to 16 in magnitude are not changed, and \<open>Math.exp\<close> returns a double that is not
  negative.\<close>

definition ieee_like :: "fpu \<Rightarrow> bool" where
  "ieee_like fp =
     ((\<forall>x y. x \<le> y \<longrightarrow> rnd fp x \<le> rnd fp y)
      \<and> (\<forall>x. rnd fp (rnd fp x) = rnd fp x)
      \<and> (\<forall>k :: int. \<bar>k\<bar> \<le> 64 \<longrightarrow> rnd fp (real_of_int k / 4) = real_of_int k / 4)
      \<and> (\<forall>x. 0 \<le> fexp fp x \<and> rnd fp (fexp fp x) = fexp fp x))"

text \<open>The bias of a session as the feedback handler reads it, and the bound of the
  specification on its values.\<close>

definition bias_of :: "session \<Rightarrow> (string \<times> real) list" where
  "bias_of s = (case preferenceBias s of None \<Rightarrow> init_bias | Some b \<Rightarrow> b)"

definition bias_in_range :: "session \<Rightarrow> bool" where
  "bias_in_range s = (\<forall>(g, v) \<in> set (bias_of s). - 2 \<le> v \<and> v \<le> 2)"

text \<open>The detail record a candidate is accepted with, if it is: the candidate has an id, the
  detail request for it succeeds with a record that is a match, and the rating of the record
  parses to a finite number that is at least the minimum. The accepted details of a list of
  candidates are those of its members, in the order of the list.\<close>

definition accepted_detail ::
  "(string \<Rightarrow> detail_reply) \<Rightarrow> (string \<Rightarrow> real option) \<Rightarrow> real \<Rightarrow> movie \<Rightarrow> movie option" where
  "accepted_detail detail pf min_rating c =
     (if imdbID c = [] then None
      else (case detail (imdbID c) of
              DetailJson m \<Rightarrow>
                if Response m \<noteq> ''False'' \<and> passes pf min_rating m then Some m else None
            | _ \<Rightarrow> None))"

definition accepted ::
  "(string \<Rightarrow> detail_reply) \<Rightarrow> (string \<Rightarrow> real option) \<Rightarrow> real \<Rightarrow> movie list \<Rightarrow> movie list" where
  "accepted detail pf min_rating cs = List.map_filter (accepted_detail detail pf min_rating) cs"

text \<open>The detail requests the scan of a list of candidates sends: one for every candidate
  that has an id, in order.\<close>

definition detail_requests :: "movie list \<Rightarrow> request list" where
  "detail_requests cs = map ReqDetail (filter (\<lambda>i. i \<noteq> []) (map imdbID cs))"

text \<open>First-seen order without repetition: of the records that share an id, the first is
  kept, where it stands.\<close>

fun first_seen :: "movie list \<Rightarrow> movie list" where
  "first_seen [] = []"
| "first_seen (x # xs) = x # first_seen (filter (\<lambda>y. imdbID y \<noteq> imdbID x) xs)"

text \<open>The results of a search page that count: those of a page that is not an error, not
  \<open>null\<close> and not a \<open>Response\<close> of \<open>False\<close>, that are not \<open>null\<close> and have an id.\<close>

definition kept_results :: "movie option list \<Rightarrow> movie list" where
  "kept_results rs =
     List.map_filter (\<lambda>r. case r of None \<Rightarrow> None
                            | Some m \<Rightarrow> if imdbID m \<noteq> [] then Some m else None) rs"

definition page_items :: "search_reply \<Rightarrow> movie list" where
  "page_items reply =
     (case reply of
        SearchJson response error (Some rs) \<Rightarrow> if response = ''False'' then [] else kept_results rs
      | _ \<Rightarrow> [])"

definition is_failed :: "search_reply \<Rightarrow> bool" where
  "is_failed reply = (case reply of SearchFailed err \<Rightarrow> True | _ \<Rightarrow> False)"

definition has_results :: "search_reply \<Rightarrow> bool" where
  "has_results reply =
     (case reply of SearchJson response error rs \<Rightarrow> response \<noteq> ''False'' | _ \<Rightarrow> False)"

text \<open>The pages a trail has asked for, and the details it has asked for.\<close>

definition searched_pages :: "trail \<Rightarrow> nat list" where
  "searched_pages dbg =
     List.map_filter (\<lambda>r. case r of ReqSearch p \<Rightarrow> Some p | ReqDetail i \<Rightarrow> None) (requests dbg)"

definition asked_details :: "trail \<Rightarrow> string list" where
  "asked_details dbg =
     List.map_filter (\<lambda>r. case r of ReqSearch p \<Rightarrow> None | ReqDetail i \<Rightarrow> Some i) (requests dbg)"

section \<open>A fixture of the catalogue\<close>

text \<open>The catalogue of scenario D of the specification, used to run the pipeline on: six
  movies \<open>tt1\<close> to \<open>tt6\<close> with the ratings 9.1, 7.5, 8.8, N/A, 8.0 and 9.9; the search
  has them on page 1, three to a page with \<open>tt3\<close> repeated on page 2, and \<open>parseFloat\<close> is
  given on the six rating strings.\<close>

definition sample_movie :: "string \<Rightarrow> string \<Rightarrow> movie" where
  "sample_movie mid rating =
     \<lparr> imdbID = mid, Title = ''Movie '' @ mid, Genre = ''Sci-Fi'', Plot = [], Actors = [],
       Director = [], Writer = [], Year = ''1999'', imdbRating = rating, Response = ''True'' \<rparr>"

definition sample_hit :: "string \<Rightarrow> movie" where
  "sample_hit mid = sample_movie mid []"

definition sample_detail :: "string \<Rightarrow> detail_reply" where
  "sample_detail mid =
     (if mid = ''tt1'' then DetailJson (sample_movie mid ''9.1'')
      else if mid = ''tt2'' then DetailJson (sample_movie mid ''7.5'')
      else if mid = ''tt3'' then DetailJson (sample_movie mid ''8.8'')
      else if mid = ''tt4'' then DetailJson (sample_movie mid ''N/A'')
      else if mid = ''tt5'' then DetailJson (sample_movie mid ''8.0'')
      else if mid = ''tt6'' then DetailJson (sample_movie mid ''9.9'')
      else DetailFailed ''HTTPS error'')"

definition sample_pf :: "string \<Rightarrow> real option" where
  "sample_pf s =
     (if s = ''9.1'' then Some 9.1
      else if s = ''7.5'' then Some 7.5
      else if s = ''8.8'' then Some 8.8
      else if s = ''8.0'' then Some 8
      else if s = ''9.9'' then Some 9.9
      else None)"

definition sample_search :: "string \<Rightarrow> nat \<Rightarrow> search_reply" where
  "sample_search term page =
     (if page = 1 then
        SearchJson ''True'' [] (Some [Some (sample_hit ''tt1''), Some (sample_hit ''tt2''),
                                       None, Some (sample_hit ''tt3'')])
      else if page = 2 then
        SearchJson ''True'' [] (Some [Some (sample_hit ''tt3''), Some (sample_hit ''tt4''),
                                       Some (sample_hit []), Some (sample_hit ''tt1''),
                                       Some (sample_hit ''tt5''), Some (sample_hit ''tt6'')])
      else if page = 3 then SearchJson ''False'' ''Movie not found!'' None
      else SearchFailed ''Response was not valid JSON.'')"

text \<open>A last run for the feedback handler: the genre Drama and one movie.\<close>

definition shawshank :: movie where
  "shawshank =
     \<lparr> imdbID = ''tt0111161'', Title = ''The Shawshank Redemption'', Genre = ''Drama'',
       Plot = ''Two imprisoned men bond.'', Actors = [], Director = [], Writer = [],
       Year = ''1994'', imdbRating = ''9.3'', Response = ''True'' \<rparr>"

definition sample_last :: last_run where
  "sample_last = \<lparr> last_genre = ''Drama'', moviesById = [(''tt0111161'', shawshank)], ts = 0 \<rparr>"

text \<open>The same catalogue when the third search page cannot be read.\<close>

definition broken_search :: "string \<Rightarrow> nat \<Rightarrow> search_reply" where
  "broken_search term page =
     (if page = 3 then SearchFailed ''Response was not valid JSON.''
      else sample_search term page)"

section \<open>Whitespace and case\<close>

text \<open>The no-break space is whitespace for \<open>normalize_text\<close>, \<open>trim\<close> and \<open>tokenize\<close>, and the
  accented capitals have a lower-case form; the multiplication sign and the sharp s have
  none.\<close>

lemma nbsp_and_accents:
  "normalize_text (CHR 0xA0 # ''New'' @ [CHR 0xA0, CHR 0x09] @ ''York'' @ [CHR 0xA0]) = ''new york''"
  "trim (CHR 0xA0 # ''ab'' @ [CHR 0xA0]) = ''ab''"
  "map to_lower [CHR 0xC9, CHR 0xD7, CHR 0xDE, CHR 0xDF, CHR ''Z'']
     = [CHR 0xE9, CHR 0xD7, CHR 0xFE, CHR 0xDF, CHR ''z'']"
  "tokenize (''a'' @ [CHR 0xA0] @ ''b'' @ [CHR 0xC9] @ ''C'') = [''a'', ''b'', ''c'']"
  by code_simp+

section \<open>The classifier state: invariant and growth\<close>

lemma map_of_foldl_update:
  "map_of (foldl (\<lambda>m l. AList.update l v m) m0 ls) k = (if k \<in> set ls then Some v else map_of m0 k)"
  by (induction ls arbitrary: m0) (auto simp: update_conv')

lemma keys_foldl_update:
  "fst ` set (foldl (\<lambda>m l. AList.update l v m) m0 ls) = fst ` set m0 \<union> set ls"
  by (induction ls arbitrary: m0) (auto simp: dom_update)

lemma nb_inv_create: "nb_inv (createNaiveBayesModel ls)"
  by (auto simp: nb_inv_def createNaiveBayesModel_def keys_foldl_update get0_def get_map_def
        map_of_foldl_update)

lemma sum_snd_update:
  "sum_list (map snd (AList.update k (get0 m k + 1) m)) = sum_list (map snd m) + 1"
  by (induction m) (auto simp: get0_def)

lemma sum_snd_update_Suc:
  "sum_list (map snd (AList.update k (Suc (get0 m k)) m)) = Suc (sum_list (map snd m))"
  using sum_snd_update [of k m] by simp

lemma get0_update: "get0 (AList.update k v m) k' = (if k' = k then v else get0 m k')"
  by (simp add: get0_def update_conv')

lemma get_map_update: "get_map (AList.update k v m) k' = (if k' = k then v else get_map m k')"
  by (simp add: get_map_def update_conv')

lemma set_set_add: "set (set_add xs x) = insert x (set xs)"
  by (auto simp: set_add_def)

lemma train_token_labels: "labels (train_token l st tok) = labels st"
  by (simp add: train_token_def Let_def)

lemma nb_inv_train_token:
  assumes "nb_inv st" and "l \<in> set (labels st)"
  shows "nb_inv (train_token l st tok)"
proof -
  let ?m = "get_map (wordCounts st) l"
  let ?st = "train_token l st tok"
  have keys: "fst ` set (wordCounts ?st) = set (labels ?st)"
    using assms by (auto simp: nb_inv_def train_token_def Let_def dom_update)
  have tot: "\<forall>k \<in> set (labels ?st).
      get0 (totalWords ?st) k = sum_list (map snd (get_map (wordCounts ?st) k))"
    using assms by (auto simp: nb_inv_def train_token_def Let_def get0_update get_map_update sum_snd_update_Suc)
  have K: "\<And>k. fst ` set (get_map (wordCounts ?st) k)
      = (if k = l then insert tok (fst ` set ?m) else fst ` set (get_map (wordCounts st) k))"
    by (simp add: train_token_def Let_def get_map_update dom_update)
  have "(\<Union>k \<in> set (labels st). fst ` set (get_map (wordCounts ?st) k))
      = insert tok (\<Union>k \<in> set (labels st). fst ` set (get_map (wordCounts st) k))"
    unfolding K using assms(2) by auto
  moreover have "set (vocab ?st) = insert tok (set (vocab st))"
    by (simp add: train_token_def Let_def set_set_add)
  ultimately have voc:
    "set (vocab ?st) = (\<Union>k \<in> set (labels ?st). fst ` set (get_map (wordCounts ?st) k))"
    using assms(1) by (simp add: nb_inv_def train_token_labels)
  have dv: "distinct (vocab ?st)"
    using assms(1) by (simp add: nb_inv_def train_token_def Let_def set_add_def)
  have dk: "\<forall>k \<in> set (labels ?st). distinct (map fst (get_map (wordCounts ?st) k))"
    using assms by (auto simp: nb_inv_def train_token_def Let_def get_map_update distinct_update)
  show ?thesis unfolding nb_inv_def using keys dv dk tot voc by blast
qed

lemma nb_inv_foldl_train_token:
  "nb_inv st \<Longrightarrow> l \<in> set (labels st) \<Longrightarrow> nb_inv (foldl (train_token l) st toks)"
  by (induction toks arbitrary: st) (auto simp: nb_inv_train_token train_token_labels)

lemma nb_inv_trainOne: "nb_inv st \<Longrightarrow> nb_inv (trainOne l t st)"
proof -
  assume inv: "nb_inv st"
  show ?thesis
  proof (cases "map_of (wordCounts st) l")
    case None
    then show ?thesis using inv by (simp add: trainOne_def)
  next
    case (Some m)
    then have "l \<in> fst ` set (wordCounts st)"
      by (metis domI dom_map_of_conv_image_fst)
    then have mem: "l \<in> set (labels st)" using inv by (simp add: nb_inv_def)
    let ?s = "st\<lparr> docCounts := AList.update l (get0 (docCounts st) l + 1) (docCounts st) \<rparr>"
    have "nb_inv ?s" using inv by (simp add: nb_inv_def)
    moreover have "l \<in> set (labels ?s)" using mem by simp
    ultimately have "nb_inv (foldl (train_token l) ?s (tokenize t))"
      by (rule nb_inv_foldl_train_token)
    then show ?thesis using Some by (simp add: trainOne_def)
  qed
qed

lemma nb_inv_trainBatch: "nb_inv st \<Longrightarrow> nb_inv (trainBatch calls st)"
  unfolding trainBatch_def
  by (induction calls arbitrary: st) (auto simp: nb_inv_trainOne)

lemma nb_le_refl: "nb_le s s"
  by (simp add: nb_le_def)

lemma nb_le_trans: "nb_le a b \<Longrightarrow> nb_le b c \<Longrightarrow> nb_le a c"
  unfolding nb_le_def by (meson order_trans)

lemma nb_le_train_token: "nb_le st (train_token l st tok)"
  by (auto simp: nb_le_def train_token_def Let_def get0_update get_map_update set_set_add dom_update)

lemma nb_le_foldl_train_token: "nb_le st (foldl (train_token l) st toks)"
proof (induction toks arbitrary: st)
  case Nil
  show ?case by (simp add: nb_le_refl)
next
  case (Cons tok toks)
  have "nb_le st (train_token l st tok)" by (rule nb_le_train_token)
  moreover have "nb_le (train_token l st tok) (foldl (train_token l) (train_token l st tok) toks)"
    by (rule Cons.IH)
  ultimately show ?case using nb_le_trans by simp
qed

lemma nb_le_trainOne: "nb_le st (trainOne l t st)"
proof (cases "map_of (wordCounts st) l")
  case None
  then show ?thesis by (simp add: trainOne_def nb_le_refl)
next
  case (Some m)
  let ?s = "st\<lparr> docCounts := AList.update l (get0 (docCounts st) l + 1) (docCounts st) \<rparr>"
  have "nb_le st ?s" by (simp add: nb_le_def get0_update)
  moreover have "nb_le ?s (foldl (train_token l) ?s (tokenize t))"
    by (rule nb_le_foldl_train_token)
  ultimately show ?thesis using Some nb_le_trans by (simp add: trainOne_def)
qed

lemma nb_le_trainBatch: "nb_le st (trainBatch calls st)"
  unfolding trainBatch_def
proof (induction calls arbitrary: st)
  case Nil
  show ?case by (simp add: nb_le_refl)
next
  case (Cons c calls)
  obtain l t where c: "c = (l, t)" by (cases c)
  have "nb_le st (trainOne l t st)" by (rule nb_le_trainOne)
  moreover have "nb_le (trainOne l t st) (foldl (\<lambda>s (l, t). trainOne l t s) (trainOne l t st) calls)"
    by (rule Cons.IH)
  ultimately show ?case using nb_le_trans c by simp
qed

text \<open>
  Claim C8. Whatever calls of \<open>trainOne\<close> are made on a freshly created classifier (any
  labels, any texts, known or unknown labels), the state satisfies the invariant: a label's
  stored total equals the sum of its word counts, and the vocabulary is the union of the
  labels' word keys. And the state only grows: after any further calls no document count,
  total, word count, word key or vocabulary entry is smaller or lost.
\<close>

theorem classifier_invariant_and_growth:
  "nb_inv (trainBatch calls (createNaiveBayesModel ls))
   \<and> nb_le (trainBatch calls (createNaiveBayesModel ls))
        (trainBatch (calls @ later) (createNaiveBayesModel ls))"
proof -
  have "trainBatch (calls @ later) (createNaiveBayesModel ls)
        = trainBatch later (trainBatch calls (createNaiveBayesModel ls))"
    by (simp add: trainBatch_def)
  then show ?thesis
    by (simp add: nb_inv_trainBatch nb_inv_create nb_le_trainBatch)
qed


theorem classifier_invariant_and_growth_witness:
  "get0 (totalWords (trainBatch [(''Action'', ''Fast  car, fast!''), (''Horror'', ''ghost'')]
                       (createNaiveBayesModel GENRE_LABELS))) ''Action''
     = sum_list (map snd (get_map (wordCounts
         (trainBatch [(''Action'', ''Fast  car, fast!''), (''Horror'', ''ghost'')]
            (createNaiveBayesModel GENRE_LABELS))) ''Action''))
   \<and> trainBatch [(''Action'', ''Fast  car, fast!''), (''Horror'', ''ghost'')]
         (createNaiveBayesModel GENRE_LABELS)
       = \<lparr> labels = GENRE_LABELS,
           wordCounts = [(''Sci-Fi'', []), (''Action'', [(''fast'', 2), (''car'', 1)]),
                         (''Thriller'', []), (''Drama'', []), (''Mystery'', []), (''Romance'', [])],
           docCounts = [(''Sci-Fi'', 0), (''Action'', 1), (''Thriller'', 0), (''Drama'', 0),
                        (''Mystery'', 0), (''Romance'', 0)],
           totalWords = [(''Sci-Fi'', 0), (''Action'', 3), (''Thriller'', 0), (''Drama'', 0),
                         (''Mystery'', 0), (''Romance'', 0)],
           vocab = [''fast'', ''car''] \<rparr>"
proof -
  let ?s = "trainBatch [(''Action'', ''Fast  car, fast!''), (''Horror'', ''ghost'')]
              (createNaiveBayesModel GENRE_LABELS)"
  have run: "?s = \<lparr> labels = GENRE_LABELS,
           wordCounts = [(''Sci-Fi'', []), (''Action'', [(''fast'', 2), (''car'', 1)]),
                         (''Thriller'', []), (''Drama'', []), (''Mystery'', []), (''Romance'', [])],
           docCounts = [(''Sci-Fi'', 0), (''Action'', 1), (''Thriller'', 0), (''Drama'', 0),
                        (''Mystery'', 0), (''Romance'', 0)],
           totalWords = [(''Sci-Fi'', 0), (''Action'', 3), (''Thriller'', 0), (''Drama'', 0),
                         (''Mystery'', 0), (''Romance'', 0)],
           vocab = [''fast'', ''car''] \<rparr>"
    by code_simp
  have mem: "''Action'' \<in> set (labels ?s)"
    unfolding run by (simp add: GENRE_LABELS_def)
  have "nb_inv ?s"
    using classifier_invariant_and_growth [of "[(''Action'', ''Fast  car, fast!''), (''Horror'', ''ghost'')]" GENRE_LABELS "[]"]
    by simp
  then have "\<forall>l \<in> set (labels ?s).
      get0 (totalWords ?s) l = sum_list (map snd (get_map (wordCounts ?s) l))"
    unfolding nb_inv_def by blast
  with mem have "get0 (totalWords ?s) ''Action''
      = sum_list (map snd (get_map (wordCounts ?s) ''Action''))"
    by blast
  with run show ?thesis by blast
qed

section \<open>The log-scores of the classifier\<close>

lemma map_of_foldl_update_fun:
  "map_of (foldl (\<lambda>m l. AList.update l (f l) m) m0 ls) k
     = (if k \<in> set ls then Some (f k) else map_of m0 k)"
  by (induction ls arbitrary: m0 rule: rev_induct) (auto simp: update_conv')

lemma keys_foldl_update_fun:
  "fst ` set (foldl (\<lambda>m l. AList.update l (f l) m) m0 ls) = fst ` set m0 \<union> set ls"
  by (induction ls arbitrary: m0) (auto simp: dom_update)

lemma foldl_add_nat: "foldl (\<lambda>s l. s + g l) (a::nat) xs = a + sum_list (map g xs)"
  by (induction xs arbitrary: a) auto

lemma foldl_add_real: "foldl (\<lambda>s l. s + g l) (a::real) xs = a + sum_list (map g xs)"
  by (induction xs arbitrary: a) auto

lemma or_one: "(if (n::nat) = 0 then 1 else n) = max 1 n"
  by simp

lemma predict_eq:
  "predict st text
     = foldl (\<lambda>scores label. AList.update label (laplace_log_score st (tokenize text) label) scores)
         [] (labels st)"
  unfolding predict_def Let_def laplace_log_score_def foldl_add_nat foldl_add_real or_one
  by simp

lemma predict_keys: "fst ` set (predict st text) = set (labels st)"
  unfolding predict_eq by (simp add: keys_foldl_update_fun)

lemma predict_value:
  "label \<in> set (labels st) \<Longrightarrow>
   map_of (predict st text) label = Some (laplace_log_score st (tokenize text) label)"
  unfolding predict_eq by (simp add: map_of_foldl_update_fun)

lemma labels_foldl_train_token: "labels (foldl (train_token l) st toks) = labels st"
  by (induction toks arbitrary: st) (simp_all add: train_token_labels)

lemma labels_trainOne: "labels (trainOne l t st) = labels st"
  by (simp add: trainOne_def labels_foldl_train_token split: option.splits)

lemma labels_trainBatch: "labels (trainBatch calls st) = labels st"
  unfolding trainBatch_def
  by (induction calls arbitrary: st) (auto simp: labels_trainOne)

lemma labels_GENRE_MODEL: "labels (trainBatch calls GENRE_MODEL) = GENRE_LABELS"
  by (simp add: labels_trainBatch GENRE_MODEL_def createNaiveBayesModel_def)

text \<open>
  Claim C4. For every classifier state and every text, \<open>predict\<close> has a score for exactly
  the labels, and the score of a label is the Laplace-smoothed log-score of the
  specification, computed on the tokens of the text, with the vocabulary size and the
  number of documents taken as at least 1. Every quotient whose logarithm is taken is
  positive, for seen and unseen tokens alike, so every logarithm is a finite number and no
  score is undefined; this includes the empty text, whose score is the first logarithm.
  The labels of the server's classifier, seeded and trained by any feedback, are the six
  genre labels.
\<close>

theorem predict_is_laplace_log_score:
  "labels (trainBatch calls GENRE_MODEL) = GENRE_LABELS
   \<and> length GENRE_LABELS = 6
   \<and> fst ` set (predict st text) = set (labels st)
   \<and> (\<forall>label \<in> set (labels st).
         map_of (predict st text) label = Some (laplace_log_score st (tokenize text) label)
         \<and> 0 < real (get0 (docCounts st) label + 1)
                 / real (max 1 (sum_list (map (get0 (docCounts st)) (labels st)))
                         + length (labels st))
         \<and> (\<forall>tok. 0 < real (get0 (get_map (wordCounts st) label) tok + 1)
                       / real (get0 (totalWords st) label + max 1 (length (vocab st)))))"
  using predict_keys predict_value labels_GENRE_MODEL by (auto simp: GENRE_LABELS_def)

theorem predict_is_laplace_log_score_witness:
  "map_of (predict (trainOne ''Sci-Fi'' ''Alien spaceship'' (createNaiveBayesModel GENRE_LABELS))
             ''Spaceship!'') ''Action''
     = Some (ln (1 / 7) + ln (1 / 2))
   \<and> map_of (predict (trainOne ''Sci-Fi'' ''Alien spaceship'' (createNaiveBayesModel GENRE_LABELS))
               ''Spaceship!'') ''Sci-Fi''
     = Some (ln (2 / 7) + ln (2 / 4))
   \<and> map_of (predict (trainOne ''Sci-Fi'' ''Alien spaceship'' (createNaiveBayesModel GENRE_LABELS))
               [])  ''Sci-Fi''
     = Some (ln (2 / 7))"
proof -
  let ?st = "trainOne ''Sci-Fi'' ''Alien spaceship'' (createNaiveBayesModel GENRE_LABELS)"
  have st: "?st = \<lparr> labels = [''Sci-Fi'', ''Action'', ''Thriller'', ''Drama'', ''Mystery'', ''Romance''],
       wordCounts = [(''Sci-Fi'', [(''alien'', 1), (''spaceship'', 1)]), (''Action'', []),
                     (''Thriller'', []), (''Drama'', []), (''Mystery'', []), (''Romance'', [])],
       docCounts = [(''Sci-Fi'', 1), (''Action'', 0), (''Thriller'', 0), (''Drama'', 0),
                    (''Mystery'', 0), (''Romance'', 0)],
       totalWords = [(''Sci-Fi'', 2), (''Action'', 0), (''Thriller'', 0), (''Drama'', 0),
                     (''Mystery'', 0), (''Romance'', 0)],
       vocab = [''alien'', ''spaceship''] \<rparr>"
    by code_simp
  have tk: "tokenize ''Spaceship!'' = [''spaceship'']" "tokenize [] = []"
    by code_simp+
  have a: "''Action'' \<in> set (labels ?st)" and s: "''Sci-Fi'' \<in> set (labels ?st)"
    unfolding st by simp_all
  have all: "\<forall>label \<in> set (labels ?st). \<forall>text.
      map_of (predict ?st text) label = Some (laplace_log_score ?st (tokenize text) label)"
    using predict_is_laplace_log_score [where st = ?st] by blast
  have "map_of (predict ?st ''Spaceship!'') ''Action''
          = Some (laplace_log_score ?st (tokenize ''Spaceship!'') ''Action'')"
    using all a by blast
  moreover have "laplace_log_score ?st (tokenize ''Spaceship!'') ''Action'' = ln (1 / 7) + ln (1 / 2)"
    unfolding st tk by (simp add: laplace_log_score_def get0_def get_map_def)
  moreover have "map_of (predict ?st ''Spaceship!'') ''Sci-Fi''
          = Some (laplace_log_score ?st (tokenize ''Spaceship!'') ''Sci-Fi'')"
    using all s by blast
  moreover have "laplace_log_score ?st (tokenize ''Spaceship!'') ''Sci-Fi'' = ln (2 / 7) + ln (2 / 4)"
    unfolding st tk by (simp add: laplace_log_score_def get0_def get_map_def)
  moreover have "map_of (predict ?st []) ''Sci-Fi''
          = Some (laplace_log_score ?st (tokenize []) ''Sci-Fi'')"
    using all s by blast
  moreover have "laplace_log_score ?st (tokenize []) ''Sci-Fi'' = ln (2 / 7)"
    unfolding st tk by (simp add: laplace_log_score_def get0_def get_map_def)
  ultimately show ?thesis by simp
qed

section \<open>Rounded arithmetic\<close>

lemma ieee_like_exact_fpu: "ieee_like exact_fpu"
  by (simp add: ieee_like_def exact_fpu_def)

lemma exact_fpu_ops:
  "rnd exact_fpu x = x" "fexp exact_fpu x = exp x" "fadd exact_fpu a b = a + b"
  "fsub exact_fpu a b = a - b" "fdiv exact_fpu a b = a / b"
  by (simp_all add: exact_fpu_def fadd_def fsub_def fdiv_def)

lemma rnd_mono: "ieee_like fp \<Longrightarrow> x \<le> y \<Longrightarrow> rnd fp x \<le> rnd fp y"
  by (simp add: ieee_like_def)


lemma rnd_quarter:
  "ieee_like fp \<Longrightarrow> \<bar>k\<bar> \<le> 64 \<Longrightarrow> rnd fp (real_of_int k / 4) = real_of_int k / 4"
  by (simp add: ieee_like_def)







section \<open>The winner of the decision\<close>

lemma winner_step_first_max:
  fixes c :: "string \<Rightarrow> real"
  assumes "gs \<noteq> []"
  shows "\<exists>w pre post.
           foldl (\<lambda>(bestGenre, bestScore) g.
                    (let s = c g in
                     if gt_best s bestScore then (g, Some s) else (bestGenre, bestScore)))
             (g0, None) gs = (w, Some (c w))
           \<and> gs = pre @ w # post
           \<and> (\<forall>g \<in> set pre. c g < c w) \<and> (\<forall>g \<in> set post. c g \<le> c w)"
  using assms
proof (induction gs rule: rev_induct)
  case Nil
  then show ?case by simp
next
  case (snoc x gs)
  show ?case
  proof (cases "gs = []")
    case True
    have "[x] = [] @ x # []" by simp
    then show ?thesis
      using True by (intro exI [of _ x] exI [of _ "[]"]) (simp add: gt_best_def)
  next
    case False
    then obtain w pre post where
      run: "foldl (\<lambda>(bestGenre, bestScore) g.
                    (let s = c g in
                     if gt_best s bestScore then (g, Some s) else (bestGenre, bestScore)))
             (g0, None) gs = (w, Some (c w))"
      and split: "gs = pre @ w # post"
      and before: "\<forall>g \<in> set pre. c g < c w"
      and after: "\<forall>g \<in> set post. c g \<le> c w"
      using snoc.IH by blast
    show ?thesis
    proof (cases "c x > c w")
      case True
      have "\<forall>g \<in> set gs. c g < c x"
        using split before after True by fastforce
      moreover have "gs @ [x] = gs @ x # []" by simp
      ultimately show ?thesis
        using run True
        by (intro exI [of _ x] exI [of _ gs] exI [of _ "[]"]) (simp add: gt_best_def)
    next
      case False
      then have "\<forall>g \<in> set (post @ [x]). c g \<le> c w"
        using after by auto
      moreover have "gs @ [x] = pre @ w # (post @ [x])"
        using split by simp
      ultimately show ?thesis
        using run False before
        by (intro exI [of _ w] exI [of _ pre] exI [of _ "post @ [x]"]) (simp add: gt_best_def)
    qed
  qed
qed

lemma choose_winner_first_max:
  "\<exists>pre post. priority = pre @ fst (choose_winner comb) # post
      \<and> (\<forall>g \<in> set pre. getr comb g < getr comb (fst (choose_winner comb)))
      \<and> (\<forall>g \<in> set post. getr comb g \<le> getr comb (fst (choose_winner comb)))"
proof -
  have "priority \<noteq> []" by (simp add: priority_def)
  from winner_step_first_max [OF this, of "getr comb" "hd priority"]
  show ?thesis unfolding choose_winner_def by force
qed

lemma choose_winner_max:
  "g \<in> set priority \<Longrightarrow> getr comb g \<le> getr comb (fst (choose_winner comb))"
  using choose_winner_first_max [of comb] by (metis Un_iff insert_iff less_eq_real_def list.simps(15) set_append)

lemma choose_winner_label: "fst (choose_winner comb) \<in> set priority"
  using choose_winner_first_max [of comb] by (metis in_set_conv_decomp)

lemma set_priority: "set priority = set GENRE_LABELS"
  by (auto simp: priority_def GENRE_LABELS_def)

lemma getr_combine:
  "g \<in> set GENRE_LABELS \<Longrightarrow>
   getr (combine fp probs pr) g = fadd fp (getr probs g) (getr pr g)"
proof -
  have "map_of (map (\<lambda>g. (g, f g)) xs) g = (if g \<in> set xs then Some (f g) else None)"
    for f :: "string \<Rightarrow> real" and xs
    by (induction xs) auto
  then show "g \<in> set GENRE_LABELS \<Longrightarrow> ?thesis"
    by (simp add: combine_def getr_def)
qed

lemma genre_choose_genre_deep:
  "genre (choose_genre_deep fp model_predict bio location userBias)
     = fst (choose_winner (combine fp (decision_probs fp model_predict bio location)
              (decision_priors fp bio location userBias)))"
  by (simp add: choose_genre_deep_def decision_probs_def decision_priors_def Let_def
        split: prod.splits)

lemma genre_label:
  "genre (choose_genre_deep fp model_predict bio location userBias) \<in> set GENRE_LABELS"
  unfolding genre_choose_genre_deep using choose_winner_label set_priority by blast

lemma getr_combine_score:
  "g \<in> set GENRE_LABELS \<Longrightarrow>
   getr (combine fp (decision_probs fp model_predict bio location)
           (decision_priors fp bio location userBias)) g
     = combined_score fp model_predict bio location userBias g"
  by (simp add: getr_combine combined_score_def)

text \<open>
  Claim C6. The genre of a decision is one of the six labels; its combined score (the
  softmax probability plus the prior, as the runtime adds them) is maximal over the six
  labels; and in the fixed priority list Sci-Fi, Action, Thriller, Mystery, Drama, Romance
  every label before it has a strictly smaller combined score, so among the labels that tie
  for the maximum the first of the list is the one selected. This holds whatever the
  rounding of the arithmetic is and whatever scores the classifier returns.
\<close>

theorem decision_selects_first_maximum:
  "genre (choose_genre_deep fp model_predict bio location userBias) \<in> set GENRE_LABELS
   \<and> (\<forall>g \<in> set GENRE_LABELS.
         combined_score fp model_predict bio location userBias g
           \<le> combined_score fp model_predict bio location userBias
                (genre (choose_genre_deep fp model_predict bio location userBias)))
   \<and> (\<exists>pre post.
         priority = pre @ genre (choose_genre_deep fp model_predict bio location userBias) # post
         \<and> (\<forall>g \<in> set pre.
               combined_score fp model_predict bio location userBias g
                 < combined_score fp model_predict bio location userBias
                     (genre (choose_genre_deep fp model_predict bio location userBias)))
         \<and> (\<forall>g \<in> set post.
               combined_score fp model_predict bio location userBias g
                 \<le> combined_score fp model_predict bio location userBias
                      (genre (choose_genre_deep fp model_predict bio location userBias))))"
proof -
  let ?comb = "combine fp (decision_probs fp model_predict bio location)
                 (decision_priors fp bio location userBias)"
  let ?w = "genre (choose_genre_deep fp model_predict bio location userBias)"
  let ?c = "combined_score fp model_predict bio location userBias"
  have w: "?w = fst (choose_winner ?comb)" by (rule genre_choose_genre_deep)
  have lab: "?w \<in> set GENRE_LABELS" by (rule genre_label)
  have score: "\<And>g. g \<in> set priority \<Longrightarrow> getr ?comb g = ?c g"
    using getr_combine_score set_priority by blast
  have wscore: "getr ?comb ?w = ?c ?w"
    using lab by (rule getr_combine_score)
  obtain pre post where
    split: "priority = pre @ ?w # post"
    and before: "\<forall>g \<in> set pre. getr ?comb g < getr ?comb ?w"
    and after: "\<forall>g \<in> set post. getr ?comb g \<le> getr ?comb ?w"
    using choose_winner_first_max [of ?comb] unfolding w by blast
  have pre_in: "set pre \<subseteq> set priority" and post_in: "set post \<subseteq> set priority"
    using split by (metis Un_iff set_append subsetI, metis Un_iff list.set_intros(2) set_append subsetI)
  have b: "\<forall>g \<in> set pre. ?c g < ?c ?w"
    using before pre_in score wscore by (metis subsetD)
  have a: "\<forall>g \<in> set post. ?c g \<le> ?c ?w"
    using after post_in score wscore by (metis subsetD)
  have m: "\<forall>g \<in> set GENRE_LABELS. ?c g \<le> ?c ?w"
  proof
    fix g assume "g \<in> set GENRE_LABELS"
    then have g: "g \<in> set priority" using set_priority by simp
    from choose_winner_max [OF g, of ?comb]
    show "?c g \<le> ?c ?w"
      using score [OF g] wscore w by simp
  qed
  from lab m split b a show ?thesis by blast
qed

section \<open>Softmax probabilities and priors\<close>





lemma getr_add_prior:
  "getr (add_prior fp p g w) k = (if k = g then fadd fp (getr p g) w else getr p k)"
  by (simp add: add_prior_def getr_def update_conv')

lemma getr_zero_map: "getr (map (\<lambda>g. (g, 0)) gs) k = 0"
  by (induction gs) (auto simp: getr_def)

lemma heuristic_priors_value:
  "getr (fst (heuristic_priors fp bio location)) g =
     (if g = ''Drama'' \<and> normalize_text (trim bio) = [] then fadd fp 0 (rnd fp (7 / 10))
      else if g = ''Thriller'' \<and> trim bio \<noteq> [] \<and> is_name_only_bio (trim bio)
        then fadd fp 0 (rnd fp (9 / 10))
      else if g = ''Action'' \<and> nyc_location (normalize_text (trim location))
        then fadd fp 0 (rnd fp (35 / 100))
      else if g = ''Sci-Fi'' \<and> tech_hub_location (normalize_text (trim location))
        then fadd fp 0 (rnd fp (35 / 100))
      else 0)"
  by (simp add: heuristic_priors_def Let_def getr_add_prior getr_zero_map)

lemma bias_fold_value:
  "distinct gs \<Longrightarrow>
   getr (foldl (\<lambda>p g. (let v = getr ub g in if v \<noteq> 0 then add_prior fp p g v else p)) p0 gs) k
     = (if k \<in> set gs \<and> getr ub k \<noteq> 0 then fadd fp (getr p0 k) (getr ub k) else getr p0 k)"
  by (induction gs arbitrary: p0) (auto simp: Let_def getr_add_prior)

lemma bias_priors_value:
  "getr (bias_priors fp p0 ub) k
     = (if k \<in> set GENRE_LABELS \<and> getr ub k \<noteq> 0 then fadd fp (getr p0 k) (getr ub k)
        else getr p0 k)"
  unfolding bias_priors_def by (rule bias_fold_value) (simp add: GENRE_LABELS_def)

lemma decision_priors_value:
  "g \<in> set GENRE_LABELS \<Longrightarrow>
   getr (decision_priors fp bio location userBias) g
     = (if getr userBias g \<noteq> 0
        then fadd fp (getr (fst (heuristic_priors fp bio location)) g) (getr userBias g)
        else getr (fst (heuristic_priors fp bio location)) g)"
  by (simp add: decision_priors_def bias_priors_value)

lemma keys_add_prior: "fst ` set (add_prior fp p g w) = insert g (fst ` set p)"
  by (simp add: add_prior_def dom_update)

lemma keys_heuristic_priors:
  "set GENRE_LABELS \<subseteq> fst ` set (fst (heuristic_priors fp bio location))"
  by (auto simp: heuristic_priors_def Let_def keys_add_prior image_image)

lemma keys_bias_fold:
  "fst ` set p0 \<subseteq> fst ` set (foldl (\<lambda>p g. (let v = getr ub g in if v \<noteq> 0 then add_prior fp p g v else p)) p0 gs)"
proof (induction gs arbitrary: p0)
  case Nil
  show ?case by simp
next
  case (Cons g gs)
  let ?p = "(let v = getr ub g in if v \<noteq> 0 then add_prior fp p0 g v else p0)"
  have "fst ` set p0 \<subseteq> fst ` set ?p" by (auto simp: Let_def keys_add_prior)
  also have "\<dots> \<subseteq> fst ` set (foldl (\<lambda>p g. (let v = getr ub g in if v \<noteq> 0 then add_prior fp p g v else p)) ?p gs)"
    by (rule Cons.IH)
  finally show ?case by simp
qed

lemma keys_decision_priors:
  "set GENRE_LABELS \<subseteq> fst ` set (decision_priors fp bio location userBias)"
  unfolding decision_priors_def bias_priors_def
  using keys_heuristic_priors keys_bias_fold by (rule subset_trans)




lemma fresh_score:
  "laplace_log_score (createNaiveBayesModel GENRE_LABELS) toks l = ln (1 / 7)"
proof -
  have "get0 (foldl (\<lambda>m l. AList.update l 0 m) [] GENRE_LABELS) k = 0" for k :: string
    by (simp add: get0_def map_of_foldl_update)
  moreover have "get_map (foldl (\<lambda>m l. AList.update l [] m) [] GENRE_LABELS) k = ([] :: (string \<times> nat) list)"
    for k :: string
    by (simp add: get_map_def map_of_foldl_update)
  moreover have "length GENRE_LABELS = 6" by (simp add: GENRE_LABELS_def)
  ultimately show ?thesis
    by (simp add: laplace_log_score_def createNaiveBayesModel_def get0_def)
qed

lemma fresh_probs:
  "g \<in> set GENRE_LABELS \<Longrightarrow>
   getr (decision_probs exact_fpu (predict_result (createNaiveBayesModel GENRE_LABELS))
           bio location) g = 1 / 6"
proof -
  have "predict (createNaiveBayesModel GENRE_LABELS) t
          = foldl (\<lambda>scores label. AList.update label (ln (1 / 7)) scores) []
              (labels (createNaiveBayesModel GENRE_LABELS))" for t
    unfolding predict_eq fresh_score by (rule refl)
  then have p: "predict (createNaiveBayesModel GENRE_LABELS) t
      = [(''Sci-Fi'', ln (1 / 7)), (''Action'', ln (1 / 7)), (''Thriller'', ln (1 / 7)),
         (''Drama'', ln (1 / 7)), (''Mystery'', ln (1 / 7)), (''Romance'', ln (1 / 7))]" for t
    by (simp add: createNaiveBayesModel_def GENRE_LABELS_def)
  assume "g \<in> set GENRE_LABELS"
  then show ?thesis
    unfolding decision_probs_def predict_result_def prediction.simps p
    by (auto simp: softmaxFromLogScores_def gt_best_def getr_def GENRE_LABELS_def exact_fpu_ops)
qed

theorem decision_selects_first_maximum_witness:
  "genre (choose_genre_deep exact_fpu (predict_result (createNaiveBayesModel GENRE_LABELS))
            ''I like to cook food'' [] init_bias) = ''Sci-Fi''"
proof -
  let ?mp = "predict_result (createNaiveBayesModel GENRE_LABELS)"
  let ?bio = "''I like to cook food''"
  let ?w = "genre (choose_genre_deep exact_fpu ?mp ?bio [] init_bias)"
  let ?c = "combined_score exact_fpu ?mp ?bio [] init_bias"
  have facts: "normalize_text (trim ?bio) \<noteq> []" "\<not> is_name_only_bio (trim ?bio)"
      "\<not> nyc_location (normalize_text (trim []))" "\<not> tech_hub_location (normalize_text (trim []))"
    by code_simp+
  have bias: "getr init_bias g = 0" for g
    unfolding init_bias_def by (rule getr_zero_map)
  have c: "?c g = 1 / 6" if "g \<in> set GENRE_LABELS" for g
    using that facts
    by (simp add: combined_score_def fresh_probs decision_priors_value
          heuristic_priors_value bias exact_fpu_ops)
  obtain pre post where
    split: "priority = pre @ ?w # post"
    and before: "\<forall>g \<in> set pre. ?c g < ?c ?w"
    and lab: "?w \<in> set GENRE_LABELS"
    using decision_selects_first_maximum [of exact_fpu ?mp ?bio "[]" init_bias] by blast
  have "pre = []"
  proof (rule ccontr)
    assume "pre \<noteq> []"
    then obtain g where g: "g \<in> set pre" by (cases pre) auto
    then have "g \<in> set priority" using split by (metis Un_iff set_append)
    then have "g \<in> set GENRE_LABELS" using set_priority by simp
    then have "?c g = 1 / 6" by (rule c)
    moreover have "?c ?w = 1 / 6" using lab by (rule c)
    ultimately show False using before g by force
  qed
  with split show ?thesis by (simp add: priority_def)
qed

section \<open>The confidence of a decision\<close>









section \<open>The location priors\<close>

lemma priors_debug:
  "priors (debug (choose_genre_deep fp model_predict bio location userBias))
     = rounded_to fp 3 (decision_priors fp bio location userBias)"
  by (simp add: choose_genre_deep_def decision_priors_def Let_def split: prod.splits)

lemma getr_rounded_to:
  "k \<in> fst ` set m \<Longrightarrow> getr (rounded_to fp d m) k = rnd fp (to_fixed d (getr m k))"
proof -
  have "map_of (rounded_to fp d m) k = map_option (\<lambda>v. rnd fp (to_fixed d v)) (map_of m k)"
    unfolding rounded_to_def by (induction m) auto
  moreover assume "k \<in> fst ` set m"
  then obtain v where "map_of m k = Some v"
    by (metis domIff dom_map_of_conv_image_fst not_Some_eq)
  ultimately show ?thesis by (simp add: getr_def)
qed

lemma to_fixed3_quarter:
  assumes "1 / 4 \<le> v"
  shows "1 / 4 \<le> to_fixed 3 v"
proof -
  have "250 \<le> v * 10 ^ 3 + 1 / 2" using assms by simp
  then have "(250 :: int) \<le> \<lfloor>v * 10 ^ 3 + 1 / 2\<rfloor>" by (simp add: le_floor_iff)
  then have "250 \<le> real_of_int \<lfloor>v * 10 ^ 3 + 1 / 2\<rfloor>" by linarith
  moreover have "\<not> v < 0" using assms by simp
  ultimately show ?thesis by (simp add: to_fixed_def)
qed

lemma rnd_ge_quarter:
  assumes fp: "ieee_like fp" and "1 / 4 \<le> x"
  shows "1 / 4 \<le> rnd fp x"
proof -
  have "rnd fp (1 / 4) \<le> rnd fp x" using assms(2) by (rule rnd_mono [OF fp])
  moreover have "rnd fp (1 / 4) = 1 / 4" using rnd_quarter [OF fp, of 1] by simp
  ultimately show ?thesis by simp
qed

text \<open>
  Claim C3, as the code has it. There are two location rules, each with three conditions:
  the New York rule (the normalised location contains "new york" or "nyc", or is exactly
  "ny") and the tech-hub rule (it contains "san francisco", "bay area" or "seattle"). A rule
  whose condition holds adds 0.35 to the prior of its genre, Action or Sci-Fi, once,
  however many of its substrings match. After the rules the user's bias for a label, when
  it is not 0, is added to the prior of the label, and the debug output shows the prior
  rounded to three decimals. The sums are the ones the runtime computes. For a New York
  location and a user bias for Action that is not negative, the Action prior of the debug
  output is strictly positive, for every rounding that is like that of IEEE doubles.
\<close>

theorem location_rules_add_fixed_prior:
  "(\<forall>g \<in> set GENRE_LABELS.
      getr (fst (heuristic_priors fp bio location)) g =
        (if g = ''Drama'' \<and> normalize_text (trim bio) = [] then fadd fp 0 (rnd fp (7 / 10))
         else if g = ''Thriller'' \<and> trim bio \<noteq> [] \<and> is_name_only_bio (trim bio)
           then fadd fp 0 (rnd fp (9 / 10))
         else if g = ''Action'' \<and> nyc_location (normalize_text (trim location))
           then fadd fp 0 (rnd fp (35 / 100))
         else if g = ''Sci-Fi'' \<and> tech_hub_location (normalize_text (trim location))
           then fadd fp 0 (rnd fp (35 / 100))
         else 0))
   \<and> (\<forall>g \<in> set GENRE_LABELS.
        getr (decision_priors fp bio location userBias) g =
          (if getr userBias g \<noteq> 0
           then fadd fp (getr (fst (heuristic_priors fp bio location)) g) (getr userBias g)
           else getr (fst (heuristic_priors fp bio location)) g))
   \<and> (\<forall>g \<in> set GENRE_LABELS.
        getr (priors (debug (choose_genre_deep fp model_predict bio location userBias))) g
          = rnd fp (to_fixed 3 (getr (decision_priors fp bio location userBias) g)))
   \<and> (ieee_like fp \<and> nyc_location (normalize_text (trim location))
        \<and> 0 \<le> getr userBias ''Action'' \<longrightarrow>
        0 < getr (priors (debug (choose_genre_deep fp model_predict bio location userBias)))
              ''Action'')"
proof (intro conjI ballI impI)
  fix g assume "g \<in> set GENRE_LABELS"
  show "getr (fst (heuristic_priors fp bio location)) g =
        (if g = ''Drama'' \<and> normalize_text (trim bio) = [] then fadd fp 0 (rnd fp (7 / 10))
         else if g = ''Thriller'' \<and> trim bio \<noteq> [] \<and> is_name_only_bio (trim bio)
           then fadd fp 0 (rnd fp (9 / 10))
         else if g = ''Action'' \<and> nyc_location (normalize_text (trim location))
           then fadd fp 0 (rnd fp (35 / 100))
         else if g = ''Sci-Fi'' \<and> tech_hub_location (normalize_text (trim location))
           then fadd fp 0 (rnd fp (35 / 100))
         else 0)"
    by (rule heuristic_priors_value)
next
  fix g assume "g \<in> set GENRE_LABELS"
  then show "getr (decision_priors fp bio location userBias) g =
          (if getr userBias g \<noteq> 0
           then fadd fp (getr (fst (heuristic_priors fp bio location)) g) (getr userBias g)
           else getr (fst (heuristic_priors fp bio location)) g)"
    by (rule decision_priors_value)
next
  fix g assume "g \<in> set GENRE_LABELS"
  then have "g \<in> fst ` set (decision_priors fp bio location userBias)"
    using keys_decision_priors by blast
  then show "getr (priors (debug (choose_genre_deep fp model_predict bio location userBias))) g
          = rnd fp (to_fixed 3 (getr (decision_priors fp bio location userBias) g))"
    unfolding priors_debug by (rule getr_rounded_to)
next
  assume a: "ieee_like fp \<and> nyc_location (normalize_text (trim location))
             \<and> 0 \<le> getr userBias ''Action''"
  then have fp: "ieee_like fp" and nyc: "nyc_location (normalize_text (trim location))"
    and ub: "0 \<le> getr userBias ''Action''"
    by simp_all
  have lab: "''Action'' \<in> set GENRE_LABELS" by (simp add: GENRE_LABELS_def)
  let ?h = "getr (fst (heuristic_priors fp bio location)) ''Action''"
  let ?p = "getr (decision_priors fp bio location userBias) ''Action''"
  have "?h = fadd fp 0 (rnd fp (35 / 100))"
    using nyc by (simp add: heuristic_priors_value)
  moreover have "1 / 4 \<le> rnd fp (35 / 100)" by (rule rnd_ge_quarter [OF fp]) simp
  then have "1 / 4 \<le> rnd fp (0 + rnd fp (35 / 100))" by (intro rnd_ge_quarter [OF fp]) simp
  ultimately have h: "1 / 4 \<le> ?h" by (simp add: fadd_def)
  have p: "1 / 4 \<le> ?p"
  proof (cases "getr userBias ''Action'' = 0")
    case True
    then show ?thesis using h by (simp add: decision_priors_value [OF lab])
  next
    case False
    have "1 / 4 \<le> rnd fp (?h + getr userBias ''Action'')"
      using h ub by (intro rnd_ge_quarter [OF fp]) simp
    then show ?thesis using False by (simp add: decision_priors_value [OF lab] fadd_def)
  qed
  have "1 / 4 \<le> rnd fp (to_fixed 3 ?p)"
    using p by (intro rnd_ge_quarter [OF fp] to_fixed3_quarter)
  moreover have "''Action'' \<in> fst ` set (decision_priors fp bio location userBias)"
    using lab keys_decision_priors by blast
  ultimately show "0 < getr (priors (debug (choose_genre_deep fp model_predict bio location userBias)))
              ''Action''"
    unfolding priors_debug by (simp add: getr_rounded_to)
qed

theorem location_rules_add_fixed_prior_witness:
  "nyc_location (normalize_text (trim ''New York''))
   \<and> getr (decision_priors exact_fpu [] ''New York'' init_bias) ''Action'' = 0.35
   \<and> getr (decision_priors exact_fpu [] (''New'' @ [CHR 0xA0] @ ''York'') init_bias) ''Action''
       = 0.35
   \<and> getr (decision_priors exact_fpu [] ''New York'' init_bias) ''Drama'' = 0.7
   \<and> getr (priors (debug (choose_genre_deep exact_fpu (predict_result GENRE_MODEL)
              [] ''New York'' init_bias))) ''Action'' = 0.35
   \<and> 0 < getr (priors (debug (choose_genre_deep exact_fpu (predict_result GENRE_MODEL)
                 [] ''New York'' init_bias))) ''Action''"
proof -
  let ?d = "choose_genre_deep exact_fpu (predict_result GENRE_MODEL) [] ''New York'' init_bias"
  have facts: "nyc_location (normalize_text (trim ''New York''))"
      "\<not> tech_hub_location (normalize_text (trim ''New York''))"
      "normalize_text (trim []) = []" "trim [] = []"
    by code_simp+
  have bias: "getr init_bias g = 0" for g
    unfolding init_bias_def by (rule getr_zero_map)
  have a: "''Action'' \<in> set GENRE_LABELS" and d: "''Drama'' \<in> set GENRE_LABELS"
    by (simp_all add: GENRE_LABELS_def)
  note inst = location_rules_add_fixed_prior
    [of exact_fpu "[]" "''New York''" init_bias "predict_result GENRE_MODEL"]
  from inst a have ha: "getr (fst (heuristic_priors exact_fpu [] ''New York'')) ''Action'' =
        (if ''Action'' = ''Drama'' \<and> normalize_text (trim []) = []
           then fadd exact_fpu 0 (rnd exact_fpu (7 / 10))
         else if ''Action'' = ''Thriller'' \<and> trim [] \<noteq> [] \<and> is_name_only_bio (trim [])
           then fadd exact_fpu 0 (rnd exact_fpu (9 / 10))
         else if ''Action'' = ''Action'' \<and> nyc_location (normalize_text (trim ''New York''))
           then fadd exact_fpu 0 (rnd exact_fpu (35 / 100))
         else if ''Action'' = ''Sci-Fi'' \<and> tech_hub_location (normalize_text (trim ''New York''))
           then fadd exact_fpu 0 (rnd exact_fpu (35 / 100))
         else 0)"
    by blast
  from inst a have pa: "getr (decision_priors exact_fpu [] ''New York'' init_bias) ''Action'' =
          (if getr init_bias ''Action'' \<noteq> 0
           then fadd exact_fpu (getr (fst (heuristic_priors exact_fpu [] ''New York'')) ''Action'')
                  (getr init_bias ''Action'')
           else getr (fst (heuristic_priors exact_fpu [] ''New York'')) ''Action'')"
    by blast
  have act: "getr (decision_priors exact_fpu [] ''New York'' init_bias) ''Action'' = 0.35"
    unfolding pa ha using facts by (simp add: bias exact_fpu_ops)
  from inst d have hd: "getr (fst (heuristic_priors exact_fpu [] ''New York'')) ''Drama'' =
        (if ''Drama'' = ''Drama'' \<and> normalize_text (trim []) = []
           then fadd exact_fpu 0 (rnd exact_fpu (7 / 10))
         else if ''Drama'' = ''Thriller'' \<and> trim [] \<noteq> [] \<and> is_name_only_bio (trim [])
           then fadd exact_fpu 0 (rnd exact_fpu (9 / 10))
         else if ''Drama'' = ''Action'' \<and> nyc_location (normalize_text (trim ''New York''))
           then fadd exact_fpu 0 (rnd exact_fpu (35 / 100))
         else if ''Drama'' = ''Sci-Fi'' \<and> tech_hub_location (normalize_text (trim ''New York''))
           then fadd exact_fpu 0 (rnd exact_fpu (35 / 100))
         else 0)"
    by blast
  from inst d have pd: "getr (decision_priors exact_fpu [] ''New York'' init_bias) ''Drama'' =
          (if getr init_bias ''Drama'' \<noteq> 0
           then fadd exact_fpu (getr (fst (heuristic_priors exact_fpu [] ''New York'')) ''Drama'')
                  (getr init_bias ''Drama'')
           else getr (fst (heuristic_priors exact_fpu [] ''New York'')) ''Drama'')"
    by blast
  have dr: "getr (decision_priors exact_fpu [] ''New York'' init_bias) ''Drama'' = 0.7"
    unfolding pd hd using facts by (simp add: bias exact_fpu_ops)
  from inst a have "getr (priors (debug ?d)) ''Action''
      = rnd exact_fpu (to_fixed 3 (getr (decision_priors exact_fpu [] ''New York'' init_bias) ''Action''))"
    by blast
  then have dbg: "getr (priors (debug ?d)) ''Action'' = 0.35"
    unfolding act by (simp add: exact_fpu_ops to_fixed_def)
  have "ieee_like exact_fpu \<and> nyc_location (normalize_text (trim ''New York''))
        \<and> 0 \<le> getr init_bias ''Action''"
    using facts(1) by (simp add: bias ieee_like_exact_fpu)
  with inst have pos: "0 < getr (priors (debug ?d)) ''Action''"
    by blast
  have nbsp: "nyc_location (normalize_text (trim (''New'' @ [CHR 0xA0] @ ''York'')))"
    by code_simp
  note inst2 = location_rules_add_fixed_prior
    [of exact_fpu "[]" "''New'' @ [CHR 0xA0] @ ''York''" init_bias "predict_result GENRE_MODEL"]
  from inst2 a
  have "getr (fst (heuristic_priors exact_fpu [] (''New'' @ [CHR 0xA0] @ ''York''))) ''Action'' =
        (if ''Action'' = ''Drama'' \<and> normalize_text (trim []) = []
           then fadd exact_fpu 0 (rnd exact_fpu (7 / 10))
         else if ''Action'' = ''Thriller'' \<and> trim [] \<noteq> [] \<and> is_name_only_bio (trim [])
           then fadd exact_fpu 0 (rnd exact_fpu (9 / 10))
         else if ''Action'' = ''Action''
                 \<and> nyc_location (normalize_text (trim (''New'' @ [CHR 0xA0] @ ''York'')))
           then fadd exact_fpu 0 (rnd exact_fpu (35 / 100))
         else if ''Action'' = ''Sci-Fi''
                 \<and> tech_hub_location (normalize_text (trim (''New'' @ [CHR 0xA0] @ ''York'')))
           then fadd exact_fpu 0 (rnd exact_fpu (35 / 100))
         else 0)"
    by blast
  then have hn: "getr (fst (heuristic_priors exact_fpu [] (''New'' @ [CHR 0xA0] @ ''York''))) ''Action''
                   = 0.35"
    using nbsp by (simp add: exact_fpu_ops)
  from inst2 a
  have "getr (decision_priors exact_fpu [] (''New'' @ [CHR 0xA0] @ ''York'') init_bias) ''Action'' =
          (if getr init_bias ''Action'' \<noteq> 0
           then fadd exact_fpu
                  (getr (fst (heuristic_priors exact_fpu [] (''New'' @ [CHR 0xA0] @ ''York''))) ''Action'')
                  (getr init_bias ''Action'')
           else getr (fst (heuristic_priors exact_fpu [] (''New'' @ [CHR 0xA0] @ ''York''))) ''Action'')"
    by blast
  then have actn: "getr (decision_priors exact_fpu [] (''New'' @ [CHR 0xA0] @ ''York'') init_bias)
                     ''Action'' = 0.35"
    using hn by (simp add: bias)
  from facts(1) act actn dr dbg pos show ?thesis by (intro conjI)
qed

lemma to_fixed3_neg:
  assumes "v \<le> - (3 / 2)"
  shows "to_fixed 3 v \<le> - (3 / 2)"
proof -
  have "1500 \<le> - v * 10 ^ 3 + 1 / 2" using assms by simp
  then have "(1500 :: int) \<le> \<lfloor>- v * 10 ^ 3 + 1 / 2\<rfloor>" by (simp add: le_floor_iff)
  then have "1500 \<le> real_of_int \<lfloor>- v * 10 ^ 3 + 1 / 2\<rfloor>" by linarith
  moreover have "v < 0" using assms by simp
  ultimately show ?thesis by (simp add: to_fixed_def)
qed

lemma rnd_le_quarters:
  assumes fp: "ieee_like fp" and "x \<le> real_of_int k / 4" and "\<bar>k\<bar> \<le> 64"
  shows "rnd fp x \<le> real_of_int k / 4"
proof -
  have "rnd fp x \<le> rnd fp (real_of_int k / 4)" using assms(2) by (rule rnd_mono [OF fp])
  then show ?thesis by (simp add: rnd_quarter [OF fp assms(3)])
qed

text \<open>With a bias of -2 for Action, a New York location gives an Action prior in the debug
  output that is negative: for every rounding that is like that of IEEE doubles, every bio
  and whatever scores the classifier returns.\<close>

lemma negative_bias_gives_negative_prior:
  assumes fp: "ieee_like fp" and nyc: "nyc_location (normalize_text (trim location))"
    and ub: "getr userBias ''Action'' = - 2"
  shows "getr (priors (debug (choose_genre_deep fp model_predict bio location userBias)))
           ''Action'' < 0"
proof -
  let ?h = "getr (fst (heuristic_priors fp bio location)) ''Action''"
  let ?p = "getr (decision_priors fp bio location userBias) ''Action''"
  have lab: "''Action'' \<in> set GENRE_LABELS" by (simp add: GENRE_LABELS_def)
  have "rnd fp (35 / 100) \<le> real_of_int 2 / 4"
    by (rule rnd_le_quarters [OF fp]) simp_all
  then have "rnd fp (0 + rnd fp (35 / 100)) \<le> real_of_int 2 / 4"
    by (intro rnd_le_quarters [OF fp]) simp_all
  moreover have "?h = fadd fp 0 (rnd fp (35 / 100))"
    using nyc by (simp add: heuristic_priors_value)
  ultimately have h: "?h \<le> 1 / 2" by (simp add: fadd_def)
  have "rnd fp (?h + - 2) \<le> real_of_int (- 6) / 4"
    using h by (intro rnd_le_quarters [OF fp]) simp_all
  then have p: "?p \<le> - (3 / 2)"
    by (simp add: decision_priors_value [OF lab] ub fadd_def)
  have "rnd fp (to_fixed 3 ?p) \<le> real_of_int (- 6) / 4"
    using to_fixed3_neg [OF p] by (intro rnd_le_quarters [OF fp]) simp_all
  moreover have "''Action'' \<in> fst ` set (decision_priors fp bio location userBias)"
    using lab keys_decision_priors by blast
  ultimately show ?thesis
    unfolding priors_debug by (simp add: getr_rounded_to)
qed

text \<open>
  Claim C3 as written fails on the code. The location "New York, NYC" contains two of the
  substrings of the New York rule, and the Action prior is 0.35, the weight once. And with
  a bias of -2 for Action the location "New York" gives an Action prior of -1.65 in the
  debug output, which is not positive.
\<close>

theorem location_rules_counterexample:
  "sublist ''new york'' (normalize_text (trim ''New York, NYC''))
   \<and> sublist ''nyc'' (normalize_text (trim ''New York, NYC''))
   \<and> getr (decision_priors exact_fpu [] ''New York, NYC'' init_bias) ''Action'' = 0.35
   \<and> getr (priors (debug (choose_genre_deep exact_fpu (predict_result GENRE_MODEL) [] ''New York''
              [(''Sci-Fi'', 0), (''Action'', - 2), (''Thriller'', 0), (''Drama'', 0),
               (''Mystery'', 0), (''Romance'', 0)]))) ''Action'' = - 1.65"
proof -
  let ?ub = "[(''Sci-Fi'', 0), (''Action'', - 2), (''Thriller'', 0), (''Drama'', 0),
              (''Mystery'', 0), (''Romance'', 0)] :: (string \<times> real) list"
  have facts: "sublist ''new york'' (normalize_text (trim ''New York, NYC''))"
      "sublist ''nyc'' (normalize_text (trim ''New York, NYC''))"
      "nyc_location (normalize_text (trim ''New York, NYC''))"
      "nyc_location (normalize_text (trim ''New York''))"
      "normalize_text (trim []) = []" "trim [] = []"
    by code_simp+
  have bias: "getr init_bias g = 0" for g
    unfolding init_bias_def by (rule getr_zero_map)
  have a: "''Action'' \<in> set GENRE_LABELS"
    by (simp add: GENRE_LABELS_def)
  have one: "getr (decision_priors exact_fpu [] ''New York, NYC'' init_bias) ''Action'' = 0.35"
    using facts by (simp add: decision_priors_value [OF a] heuristic_priors_value bias exact_fpu_ops)
  have ub: "getr ?ub ''Action'' = - 2"
    by (simp add: getr_def)
  have pr: "getr (decision_priors exact_fpu [] ''New York'' ?ub) ''Action'' = - 1.65"
    using facts by (simp add: decision_priors_value [OF a] heuristic_priors_value ub exact_fpu_ops)
  have "''Action'' \<in> fst ` set (decision_priors exact_fpu [] ''New York'' ?ub)"
    using a keys_decision_priors by blast
  then have two: "getr (priors (debug (choose_genre_deep exact_fpu (predict_result GENRE_MODEL)
              [] ''New York'' ?ub))) ''Action'' = - 1.65"
    unfolding priors_debug by (simp add: getr_rounded_to pr exact_fpu_ops to_fixed_def)
  from facts(1,2) one two show ?thesis by (intro conjI)
qed


section \<open>The feedback handler\<close>

lemma set_update_subset: "set (AList.update k v al) \<subseteq> insert (k, v) (set al)"
  by (induction al) auto

lemma handle_feedback_rejected:
  "handle_feedback sess body gm = (Rejected code msg, sess1, gm1) \<Longrightarrow> sess1 = sess \<and> gm1 = gm"
  by (auto simp: handle_feedback_def Let_def
        split: option.splits sum.splits prod.splits js_prop.splits if_splits)

lemma handle_feedback_accepted:
  assumes "handle_feedback sess body gm = (Accepted action mid g b ms, sess1, gm1)"
  shows "\<exists>s lr rawID rawAction.
           sess = Some s \<and> last s = Some lr \<and> body = Inr (rawID, rawAction)
           \<and> mid = trim rawID \<and> action = map to_lower (trim rawAction)
           \<and> (action = ''like'' \<or> action = ''dislike'')
           \<and> g = last_genre lr \<and> g \<noteq> []
           \<and> obj_get (moviesById lr) mid \<noteq> Undefined
           \<and> b = AList.update g
                   (clamp_num (getr (bias_of s) g + (if action = ''like'' then STEP else - STEP))
                      (- 2) 2) (bias_of s)
           \<and> sess1 = Some (s\<lparr> preferenceBias := Some b \<rparr>)
           \<and> gm1 = (if action = ''like''
                     then trainOne g (build_movie_training_text (obj_get (moviesById lr) mid)) gm
                     else gm)
           \<and> ms = stats gm1"
  using assms
  by (auto simp: handle_feedback_def Let_def bias_of_def
        split: option.splits sum.splits prod.splits js_prop.splits if_splits)


lemma clamp_num_range: "- 2 \<le> clamp_num x (- 2) 2 \<and> clamp_num x (- 2) 2 \<le> 2"
  by (simp add: clamp_num_def)

lemma bias_in_range_update:
  assumes "\<forall>(g, v) \<in> set b. - 2 \<le> v \<and> v \<le> (2::real)" and "- 2 \<le> x \<and> x \<le> 2"
  shows "\<forall>(g, v) \<in> set (AList.update k x b). - 2 \<le> v \<and> v \<le> 2"
  using assms set_update_subset [of k x b] by blast

lemma handle_feedback_range:
  assumes "bias_in_range s" and "handle_feedback (Some s) body gm = (r, Some s1, gm1)"
  shows "bias_in_range s1"
proof (cases r)
  case (Rejected code msg)
  with assms(2) have "Some s1 = Some s" using handle_feedback_rejected by blast
  with assms(1) show ?thesis by simp
next
  case (Accepted action mid g b ms)
  with assms(2) obtain x where b: "b = AList.update g (clamp_num x (- 2) 2) (bias_of s)"
    and s1: "Some s1 = Some (s\<lparr> preferenceBias := Some b \<rparr>)"
    using handle_feedback_accepted [of "Some s" body gm action mid g b ms "Some s1" gm1] by auto
  have "\<forall>(g, v) \<in> set b. - 2 \<le> v \<and> v \<le> 2"
    unfolding b using assms(1) clamp_num_range
    by (intro bias_in_range_update) (simp_all add: bias_in_range_def)
  with s1 show ?thesis by (simp add: bias_in_range_def bias_of_def)
qed

lemma handle_feedback_session: "\<exists>r s1 gm1. handle_feedback (Some s) body gm = (r, Some s1, gm1)"
proof -
  obtain r sess1 gm1 where h: "handle_feedback (Some s) body gm = (r, sess1, gm1)"
    by (cases "handle_feedback (Some s) body gm") auto
  have "sess1 \<noteq> None"
  proof (cases r)
    case (Rejected code msg)
    with h show ?thesis using handle_feedback_rejected by blast
  next
    case (Accepted action mid g b ms)
    with h show ?thesis
      using handle_feedback_accepted [of "Some s" body gm action mid g b ms sess1 gm1] by auto
  qed
  with h show ?thesis by auto
qed

lemma apply_event_range:
  assumes "bias_in_range (fst sg)"
  shows "bias_in_range (fst (apply_event sg ev))"
proof (cases ev)
  case (Run lr)
  with assms show ?thesis by (simp add: apply_event_def bias_in_range_def bias_of_def)
next
  case (Feedback body)
  obtain r s1 gm1 where h: "handle_feedback (Some (fst sg)) body (snd sg) = (r, Some s1, gm1)"
    using handle_feedback_session by blast
  with assms have "bias_in_range s1" by (rule handle_feedback_range)
  with h Feedback show ?thesis by (simp add: apply_event_def)
qed

lemma events_range:
  "bias_in_range (fst sg) \<Longrightarrow> bias_in_range (fst (foldl apply_event sg evs))"
  by (induction evs arbitrary: sg) (auto simp: apply_event_range)

lemma new_session_range: "bias_in_range new_session"
  by (simp add: bias_in_range_def bias_of_def new_session_def init_bias_def GENRE_LABELS_def)

text \<open>
  Claim C9. Start from any session whose bias values lie in [-2, 2], such as a new session,
  and let any sequence of feedback requests (like, dislike, or refused ones) and
  recommendation runs happen: after every one of them every bias value of the session lies
  in [-2, 2]. A feedback request that is accepted sets the bias of the genre of the last
  run to its old value plus 0.25 for a like, minus 0.25 for a dislike, clamped into [-2, 2].
\<close>

theorem feedback_keeps_bias_in_range:
  "(bias_in_range s \<longrightarrow> bias_in_range (fst (foldl apply_event (s, gm) evs)))
   \<and> bias_in_range (fst (foldl apply_event (new_session, gm) evs))
   \<and> (handle_feedback (Some s) body gm = (Accepted action mid g b ms, sess1, gm1) \<longrightarrow>
        (action = ''like'' \<or> action = ''dislike'')
        \<and> b = AList.update g
                (max (- 2) (min 2 (getr (bias_of s) g
                                     + (if action = ''like'' then 0.25 else - 0.25))))
                (bias_of s)
        \<and> sess1 = Some (s\<lparr> preferenceBias := Some b \<rparr>))"
proof (intro conjI impI)
  assume "bias_in_range s"
  then show "bias_in_range (fst (foldl apply_event (s, gm) evs))"
    using events_range [of "(s, gm)" evs] by simp
next
  show "bias_in_range (fst (foldl apply_event (new_session, gm) evs))"
    using events_range [of "(new_session, gm)" evs] new_session_range by simp
next
  assume h: "handle_feedback (Some s) body gm = (Accepted action mid g b ms, sess1, gm1)"
  from handle_feedback_accepted [OF h]
  show "action = ''like'' \<or> action = ''dislike''"
    and "b = AList.update g
                (max (- 2) (min 2 (getr (bias_of s) g
                                     + (if action = ''like'' then 0.25 else - 0.25))))
                (bias_of s)"
    and "sess1 = Some (s\<lparr> preferenceBias := Some b \<rparr>)"
    by (auto simp: clamp_num_def STEP_def)
qed


theorem feedback_keeps_bias_in_range_witness:
  "bias_in_range \<lparr> preferenceBias = Some [(''Drama'', 2), (''Action'', - 1 / 4)], last = None \<rparr>
   \<and> bias_in_range (fst (foldl apply_event
        (\<lparr> preferenceBias = Some [(''Drama'', 2), (''Action'', - 1 / 4)], last = None \<rparr>,
         createNaiveBayesModel GENRE_LABELS)
        [Run sample_last, Feedback (Inr (''tt0111161'', '' Like ''))]))
   \<and> bias_of (fst (foldl apply_event
        (\<lparr> preferenceBias = Some [(''Drama'', 2), (''Action'', - 1 / 4)], last = None \<rparr>,
         createNaiveBayesModel GENRE_LABELS)
        [Run sample_last, Feedback (Inr (''tt0111161'', '' Like ''))]))
       = [(''Drama'', 2), (''Action'', - 1 / 4)]
   \<and> handle_feedback
        (Some \<lparr> preferenceBias = Some [(''Drama'', 2), (''Action'', - 1 / 4)],
                last = Some sample_last \<rparr>)
        (Inr (''tt0111161'', ''dislike'')) (createNaiveBayesModel GENRE_LABELS)
       = (Accepted ''dislike'' ''tt0111161'' ''Drama'' [(''Drama'', 7 / 4), (''Action'', - 1 / 4)]
            (stats (createNaiveBayesModel GENRE_LABELS)),
          Some \<lparr> preferenceBias = Some [(''Drama'', 7 / 4), (''Action'', - 1 / 4)],
                  last = Some sample_last \<rparr>,
          createNaiveBayesModel GENRE_LABELS)
   \<and> [(''Drama'', 7 / 4), (''Action'', - 1 / 4)]
       = AList.update ''Drama'' (max (- 2) (min 2 (2 + (- 0.25))))
           [(''Drama'', 2), (''Action'', - 1 / 4 :: real)]"
proof -
  let ?s = "\<lparr> preferenceBias = Some [(''Drama'', 2), (''Action'', - 1 / 4)], last = None \<rparr>"
  let ?s1 = "\<lparr> preferenceBias = Some [(''Drama'', 2), (''Action'', - 1 / 4)],
               last = Some sample_last \<rparr>"
  let ?gm = "createNaiveBayesModel GENRE_LABELS"
  let ?evs = "[Run sample_last, Feedback (Inr (''tt0111161'', '' Like ''))]"
  have t: "trim ''tt0111161'' = ''tt0111161''" "map to_lower (trim '' Like '') = ''like''"
      "map to_lower (trim ''dislike'') = ''dislike''"
    by code_simp+
  have start: "bias_in_range ?s"
    by (simp add: bias_in_range_def bias_of_def)
  with feedback_keeps_bias_in_range [of ?s ?gm ?evs]
  have after: "bias_in_range (fst (foldl apply_event (?s, ?gm) ?evs))"
    by blast
  have final: "bias_of (fst (foldl apply_event (?s, ?gm) ?evs)) = [(''Drama'', 2), (''Action'', - 1 / 4)]"
    by (simp add: apply_event_def handle_feedback_def Let_def t obj_get_def bias_of_def
          clamp_num_def STEP_def getr_def sample_last_def)
  have dis: "handle_feedback (Some ?s1) (Inr (''tt0111161'', ''dislike'')) ?gm
       = (Accepted ''dislike'' ''tt0111161'' ''Drama'' [(''Drama'', 7 / 4), (''Action'', - 1 / 4)]
            (stats ?gm),
          Some \<lparr> preferenceBias = Some [(''Drama'', 7 / 4), (''Action'', - 1 / 4)],
                  last = Some sample_last \<rparr>,
          ?gm)"
    by (simp add: handle_feedback_def Let_def t obj_get_def clamp_num_def STEP_def getr_def
          sample_last_def)
  from feedback_keeps_bias_in_range [of ?s1 ?gm "[]" "Inr (''tt0111161'', ''dislike'')"
      "''dislike''" "''tt0111161''" "''Drama''" "[(''Drama'', 7 / 4), (''Action'', - 1 / 4)]"] dis
  have "[(''Drama'', 7 / 4), (''Action'', - 1 / 4)]
       = AList.update ''Drama'' (max (- 2) (min 2 (getr (bias_of ?s1) ''Drama''
            + (if ''dislike'' = ''like'' then 0.25 else - 0.25)))) (bias_of ?s1)"
    by blast
  then have step: "[(''Drama'', 7 / 4), (''Action'', - 1 / 4)]
       = AList.update ''Drama'' (max (- 2) (min 2 (2 + (- 0.25))))
           [(''Drama'', 2), (''Action'', - 1 / 4 :: real)]"
    by (simp add: bias_of_def getr_def)
  from start after final dis step show ?thesis by (intro conjI)
qed

section \<open>What a feedback request leaves alone\<close>

lemma getr_update: "getr (AList.update k v m) k' = (if k' = k then v else getr m k')"
  by (simp add: getr_def update_conv')

lemma feedback_frame:
  "(handle_feedback sess body gm = (Rejected code msg, sess1, gm1) \<longrightarrow> sess1 = sess \<and> gm1 = gm)
   \<and> (handle_feedback (Some s) body gm = (Accepted action mid g b ms, Some s1, gm1) \<longrightarrow>
        last s1 = last s \<and> bias_of s1 = b
        \<and> (\<forall>g'. g' \<noteq> g \<longrightarrow> getr b g' = getr (bias_of s) g')
        \<and> (action = ''dislike'' \<longrightarrow> gm1 = gm))"
proof (intro conjI impI)
  assume "handle_feedback sess body gm = (Rejected code msg, sess1, gm1)"
  then show "sess1 = sess" and "gm1 = gm" using handle_feedback_rejected by blast+
next
  assume h: "handle_feedback (Some s) body gm = (Accepted action mid g b ms, Some s1, gm1)"
  from handle_feedback_accepted [OF h]
  show "last s1 = last s" and "bias_of s1 = b"
    and "\<forall>g'. g' \<noteq> g \<longrightarrow> getr b g' = getr (bias_of s) g'"
    by (auto simp: bias_of_def getr_update)
  assume "action = ''dislike''"
  with handle_feedback_accepted [OF h] show "gm1 = gm" by auto
qed

text \<open>
  Claim C10 against the code. The handler looks the movie id up with
  \<open>session.last.moviesById[imdbID]\<close> on a plain object, and refuses the request when the
  value read is false. For an id that is not a key of the object but names a property
  every object inherits, such as \<open>constructor\<close>, the value read is the inherited one, which
  is true: the request is accepted although the movie is unknown. Below, the last run
  holds one movie, the request names \<open>constructor\<close> with a like: the bias of Drama goes from
  0 to 0.25 and the classifier gains a Drama document.
\<close>

theorem feedback_unknown_id_accepted:
  "map_of (moviesById sample_last) ''constructor'' = None
   \<and> handle_feedback (Some \<lparr> preferenceBias = Some init_bias, last = Some sample_last \<rparr>)
        (Inr (''constructor'', ''like'')) (createNaiveBayesModel GENRE_LABELS)
       = (Accepted ''like'' ''constructor'' ''Drama''
            [(''Sci-Fi'', 0), (''Action'', 0), (''Thriller'', 0), (''Drama'', 1 / 4),
             (''Mystery'', 0), (''Romance'', 0)]
            (stats (trainOne ''Drama'' [] (createNaiveBayesModel GENRE_LABELS))),
          Some \<lparr> preferenceBias = Some [(''Sci-Fi'', 0), (''Action'', 0), (''Thriller'', 0),
                     (''Drama'', 1 / 4), (''Mystery'', 0), (''Romance'', 0)],
                  last = Some sample_last \<rparr>,
          trainOne ''Drama'' [] (createNaiveBayesModel GENRE_LABELS))
   \<and> getr init_bias ''Drama'' = 0
   \<and> get0 (docCounts (createNaiveBayesModel GENRE_LABELS)) ''Drama'' = 0
   \<and> get0 (docCounts (trainOne ''Drama'' [] (createNaiveBayesModel GENRE_LABELS))) ''Drama'' = 1"
proof -
  have t: "trim ''constructor'' = ''constructor''" "map to_lower (trim ''like'') = ''like''"
    by code_simp+
  have d: "get0 (docCounts (createNaiveBayesModel GENRE_LABELS)) ''Drama'' = 0"
      "get0 (docCounts (trainOne ''Drama'' [] (createNaiveBayesModel GENRE_LABELS))) ''Drama'' = 1"
    by code_simp+
  have own: "map_of (moviesById sample_last) ''constructor'' = None"
    by (simp add: sample_last_def)
  have b: "getr init_bias ''Drama'' = 0"
    unfolding init_bias_def by (rule getr_zero_map)
  have h: "handle_feedback (Some \<lparr> preferenceBias = Some init_bias, last = Some sample_last \<rparr>)
        (Inr (''constructor'', ''like'')) (createNaiveBayesModel GENRE_LABELS)
       = (Accepted ''like'' ''constructor'' ''Drama''
            [(''Sci-Fi'', 0), (''Action'', 0), (''Thriller'', 0), (''Drama'', 1 / 4),
             (''Mystery'', 0), (''Romance'', 0)]
            (stats (trainOne ''Drama'' [] (createNaiveBayesModel GENRE_LABELS))),
          Some \<lparr> preferenceBias = Some [(''Sci-Fi'', 0), (''Action'', 0), (''Thriller'', 0),
                     (''Drama'', 1 / 4), (''Mystery'', 0), (''Romance'', 0)],
                  last = Some sample_last \<rparr>,
          trainOne ''Drama'' [] (createNaiveBayesModel GENRE_LABELS))"
    by (simp add: handle_feedback_def Let_def t obj_get_def OBJECT_PROTOTYPE_KEYS_def
          build_movie_training_text_def init_bias_def GENRE_LABELS_def clamp_num_def STEP_def
          getr_def sample_last_def)
  from own h b d show ?thesis by (intro conjI)
qed

section \<open>The sequential detail fetch\<close>

declare fetch_details_sequential.simps [simp del]

lemma accepted_Nil: "accepted detail pf mr [] = []"
  by (simp add: accepted_def map_filter_simps)

lemma accepted_Cons:
  "accepted detail pf mr (c # cs)
     = (case accepted_detail detail pf mr c of None \<Rightarrow> [] | Some m \<Rightarrow> [m]) @ accepted detail pf mr cs"
  by (simp add: accepted_def map_filter_simps split: option.splits)

lemma accepted_append:
  "accepted detail pf mr (xs @ ys) = accepted detail pf mr xs @ accepted detail pf mr ys"
  by (induction xs) (simp_all add: accepted_Nil accepted_Cons)

lemma accepted_passes:
  "m \<in> set (accepted detail pf mr cs) \<Longrightarrow> \<exists>r. pf (imdbRating m) = Some r \<and> mr \<le> r"
  by (induction cs)
     (auto simp: accepted_Nil accepted_Cons accepted_detail_def passes_def
        split: option.splits if_splits detail_reply.splits)

lemma requests_push_step: "requests (push_step s dbg) = requests dbg"
  by (simp add: push_step_def)

lemma requests_push_request: "requests (push_request r dbg) = requests dbg @ [r]"
  by (simp add: push_request_def)

lemma fetch_step:
  assumes "\<not> limit \<le> length acc" and "i < length candidates"
  shows "\<exists>dbg1. fetch_details_sequential detail pf candidates i acc limit mr dbg
           = fetch_details_sequential detail pf candidates (i + 1)
               (acc @ (case accepted_detail detail pf mr (candidates ! i) of
                         None \<Rightarrow> [] | Some m \<Rightarrow> [m]))
               limit mr dbg1
         \<and> requests dbg1 = requests dbg @ detail_requests [candidates ! i]"
proof (cases "imdbID (candidates ! i) = []")
  case True
  with assms show ?thesis
    by (subst fetch_details_sequential.simps, intro exI [of _ dbg])
       (simp add: accepted_detail_def detail_requests_def)
next
  case False
  with assms show ?thesis
    by (subst fetch_details_sequential.simps)
       (auto simp: accepted_detail_def detail_requests_def Let_def requests_push_step
          requests_push_request split: detail_reply.splits)
qed

lemma fetch_scan:
  "drop i candidates = rest \<Longrightarrow>
   \<exists>pre post dbg1.
      rest = pre @ post
      \<and> fetch_details_sequential detail pf candidates i acc limit mr dbg
          = (None, acc @ accepted detail pf mr pre, dbg1)
      \<and> requests dbg1 = requests dbg @ detail_requests pre
      \<and> (post = [] \<or> limit \<le> length (acc @ accepted detail pf mr pre))
      \<and> (pre = [] \<or> length (acc @ accepted detail pf mr (butlast pre)) < limit)"
proof (induction rest arbitrary: i acc dbg)
  case Nil
  then have "length candidates \<le> i" by simp
  then have "fetch_details_sequential detail pf candidates i acc limit mr dbg = (None, acc, dbg)"
    by (subst fetch_details_sequential.simps) simp
  then show ?case
    by (intro exI [of _ "[]"] exI [of _ dbg]) (simp add: accepted_Nil detail_requests_def)
next
  case (Cons c rest)
  then have i: "i < length candidates" and c: "candidates ! i = c"
    and rest: "drop (i + 1) candidates = rest"
    by (metis drop_eq_Nil2 linorder_not_less list.distinct(1), metis nth_via_drop,
        metis Suc_eq_plus1 drop_Suc list.sel(3) tl_drop)
  show ?case
  proof (cases "limit \<le> length acc")
    case True
    then have "fetch_details_sequential detail pf candidates i acc limit mr dbg = (None, acc, dbg)"
      by (subst fetch_details_sequential.simps) simp
    with True show ?thesis
      by (intro exI [of _ "[]"] exI [of _ "c # rest"] exI [of _ dbg])
         (simp add: accepted_Nil detail_requests_def)
  next
    case False
    let ?acc = "acc @ (case accepted_detail detail pf mr c of None \<Rightarrow> [] | Some m \<Rightarrow> [m])"
    from fetch_step [OF False i, of detail pf mr dbg] c obtain dbg1 where
      step: "fetch_details_sequential detail pf candidates i acc limit mr dbg
               = fetch_details_sequential detail pf candidates (i + 1) ?acc limit mr dbg1"
      and req1: "requests dbg1 = requests dbg @ detail_requests [c]"
      by auto
    from Cons.IH [OF rest, of ?acc dbg1] obtain pre post dbg2 where
      split: "rest = pre @ post"
      and run: "fetch_details_sequential detail pf candidates (i + 1) ?acc limit mr dbg1
                  = (None, ?acc @ accepted detail pf mr pre, dbg2)"
      and req2: "requests dbg2 = requests dbg1 @ detail_requests pre"
      and stop: "post = [] \<or> limit \<le> length (?acc @ accepted detail pf mr pre)"
      and last: "pre = [] \<or> length (?acc @ accepted detail pf mr (butlast pre)) < limit"
      by blast
    have "length (acc @ accepted detail pf mr (butlast (c # pre))) < limit"
      using last False by (cases "pre = []") (simp_all add: accepted_Nil accepted_Cons)
    then show ?thesis
      using split step run req1 req2 stop
      by (intro exI [of _ "c # pre"] exI [of _ post] exI [of _ dbg2])
         (simp add: accepted_Cons detail_requests_def)
  qed
qed


text \<open>
  Claim C5. Whatever the candidates, the limit \<open>L\<close> and the minimum rating, the detail
  fetch ends without an error and returns the first \<open>L\<close> accepted details of the
  candidates, in candidate order: their number is the minimum of \<open>L\<close> and the number of
  candidates that are accepted (detail request answered with a match, rating parsed to a
  finite number at least the minimum; a rating that does not parse is never accepted). It
  scans a prefix of the candidates and sends one detail request for each member of the
  prefix that has an id: the prefix is the whole list, or ends where the accepted count
  reached \<open>L\<close>, and before its last member the count was below \<open>L\<close>.
\<close>

theorem detail_fetch_returns_first_accepted:
  assumes "fetch_details_sequential detail pf candidates 0 [] limit min_rating dbg
             = (err, movies, dbg1)"
  shows "err = None
     \<and> movies = take limit (accepted detail pf min_rating candidates)
     \<and> length movies = min limit (length (accepted detail pf min_rating candidates))
     \<and> (\<forall>m \<in> set movies. \<exists>r. pf (imdbRating m) = Some r \<and> min_rating \<le> r)
     \<and> (\<exists>pre post.
           candidates = pre @ post
           \<and> movies = accepted detail pf min_rating pre
           \<and> requests dbg1 = requests dbg @ detail_requests pre
           \<and> (post = [] \<or> length movies = limit)
           \<and> (pre = [] \<or> length (accepted detail pf min_rating (butlast pre)) < limit))"
proof -
  let ?A = "accepted detail pf min_rating"
  from fetch_scan [of 0 candidates candidates detail pf "[]" limit min_rating dbg] assms
  obtain pre post where split: "candidates = pre @ post"
    and err: "err = None" and movies: "movies = ?A pre"
    and req: "requests dbg1 = requests dbg @ detail_requests pre"
    and stop: "post = [] \<or> limit \<le> length (?A pre)"
    and last: "pre = [] \<or> length (?A (butlast pre)) < limit"
    by auto
  have le: "length (?A pre) \<le> limit"
  proof (cases "pre = []")
    case True
    then show ?thesis by (simp add: accepted_Nil)
  next
    case False
    then have "pre = butlast pre @ [List.last pre]" by simp
    then have "?A pre = ?A (butlast pre) @ ?A [List.last pre]"
      by (metis accepted_append)
    moreover have "length (?A [List.last pre]) \<le> 1"
      by (simp add: accepted_Cons accepted_Nil split: option.splits)
    ultimately show ?thesis using last False by simp
  qed
  have take: "movies = take limit (?A candidates)"
  proof (cases "post = []")
    case True
    with split movies le show ?thesis by simp
  next
    case False
    with stop le have "length (?A pre) = limit" by simp
    with split movies show ?thesis by (simp add: accepted_append)
  qed
  have pass: "\<forall>m \<in> set movies. \<exists>r. pf (imdbRating m) = Some r \<and> min_rating \<le> r"
    unfolding movies using accepted_passes by blast
  have stop': "post = [] \<or> length movies = limit"
    using stop le movies by auto
  from take have len: "length movies = min limit (length (?A candidates))"
    by simp
  from err take len pass split movies req stop' last show ?thesis by blast
qed

lemma sample_run:
  "fetch_details_sequential sample_detail sample_pf
     (map sample_hit [''tt1'', ''tt2'', ''tt3'', ''tt4'', ''tt5'', ''tt6'']) 0 [] 3 8
     \<lparr> steps = [], requests = [] \<rparr>
   = (None,
      [sample_movie ''tt1'' ''9.1'', sample_movie ''tt3'' ''8.8'', sample_movie ''tt5'' ''8.0''],
      \<lparr> steps = [StepFilteredOut ''tt2'' ''7.5'', StepFilteredOut ''tt4'' ''N/A''],
        requests = map ReqDetail [''tt1'', ''tt2'', ''tt3'', ''tt4'', ''tt5''] \<rparr>)"
  by (simp add: fetch_details_sequential.simps Let_def sample_hit_def sample_movie_def
        sample_detail_def sample_pf_def passes_def push_step_def push_request_def)

theorem detail_fetch_returns_first_accepted_witness:
  "fetch_details_sequential sample_detail sample_pf
     (map sample_hit [''tt1'', ''tt2'', ''tt3'', ''tt4'', ''tt5'', ''tt6'']) 0 [] 3 8
     \<lparr> steps = [], requests = [] \<rparr>
   = (None,
      [sample_movie ''tt1'' ''9.1'', sample_movie ''tt3'' ''8.8'', sample_movie ''tt5'' ''8.0''],
      \<lparr> steps = [StepFilteredOut ''tt2'' ''7.5'', StepFilteredOut ''tt4'' ''N/A''],
        requests = map ReqDetail [''tt1'', ''tt2'', ''tt3'', ''tt4'', ''tt5''] \<rparr>)
   \<and> [sample_movie ''tt1'' ''9.1'', sample_movie ''tt3'' ''8.8'', sample_movie ''tt5'' ''8.0'']
       = take 3 (accepted sample_detail sample_pf 8
                  (map sample_hit [''tt1'', ''tt2'', ''tt3'', ''tt4'', ''tt5'', ''tt6'']))
   \<and> min 3 (length (accepted sample_detail sample_pf 8
                (map sample_hit [''tt1'', ''tt2'', ''tt3'', ''tt4'', ''tt5'', ''tt6'']))) = 3
   \<and> (\<exists>r. sample_pf (imdbRating (sample_movie ''tt5'' ''8.0'')) = Some r \<and> 8 \<le> r)"
proof -
  let ?movies = "[sample_movie ''tt1'' ''9.1'', sample_movie ''tt3'' ''8.8'',
                  sample_movie ''tt5'' ''8.0'']"
  let ?cands = "map sample_hit [''tt1'', ''tt2'', ''tt3'', ''tt4'', ''tt5'', ''tt6'']"
  from detail_fetch_returns_first_accepted [OF sample_run]
  have tk: "?movies = take 3 (accepted sample_detail sample_pf 8 ?cands)"
    and len: "length ?movies = min 3 (length (accepted sample_detail sample_pf 8 ?cands))"
    and ok: "\<forall>m \<in> set ?movies. \<exists>r. sample_pf (imdbRating m) = Some r \<and> 8 \<le> r"
    by blast+
  from len have len3: "min 3 (length (accepted sample_detail sample_pf 8 ?cands)) = 3"
    by simp
  have "sample_movie ''tt5'' ''8.0'' \<in> set ?movies" by simp
  with ok have r: "\<exists>r. sample_pf (imdbRating (sample_movie ''tt5'' ''8.0'')) = Some r \<and> 8 \<le> r"
    by blast
  from sample_run tk len3 r show ?thesis by (intro conjI)
qed

section \<open>Paging through the search\<close>

declare fetch_page.simps [simp del]

lemma ids_filter:
  "imdbID m \<noteq> imdbID x \<Longrightarrow>
   imdbID m \<in> imdbID ` set (filter (\<lambda>y. imdbID y \<noteq> imdbID x) xs) \<longleftrightarrow> imdbID m \<in> imdbID ` set xs"
  by auto

lemma first_seen_snoc:
  "first_seen (xs @ [m])
     = (if imdbID m \<in> imdbID ` set xs then first_seen xs else first_seen xs @ [m])"
proof (induction xs rule: first_seen.induct)
  case 1
  show ?case by simp
next
  case (2 x xs)
  show ?case
  proof (cases "imdbID m = imdbID x")
    case True
    then show ?thesis by simp
  next
    case False
    then show ?thesis using "2.IH" ids_filter [OF False, of xs] by simp
  qed
qed

lemma ids_first_seen: "imdbID ` set (first_seen xs) = imdbID ` set xs"
  by (induction xs rule: first_seen.induct) auto

lemma distinct_first_seen: "distinct (map imdbID (first_seen xs))"
proof (induction xs rule: first_seen.induct)
  case 1
  show ?case by simp
next
  case (2 x xs)
  have "imdbID x \<notin> imdbID ` set (first_seen (filter (\<lambda>y. imdbID y \<noteq> imdbID x) xs))"
    unfolding ids_first_seen by auto
  with "2.IH" show ?case by simp
qed

lemma set_first_seen: "set (first_seen xs) \<subseteq> set xs"
  by (induction xs rule: first_seen.induct) auto

lemma kept_results_Nil: "kept_results [] = []"
  by (simp add: kept_results_def map_filter_simps)

lemma kept_results_Cons:
  "kept_results (r # rs)
     = (case r of None \<Rightarrow> [] | Some m \<Rightarrow> if imdbID m \<noteq> [] then [m] else []) @ kept_results rs"
  by (simp add: kept_results_def map_filter_simps split: option.splits)

lemma kept_results_ids: "m \<in> set (kept_results rs) \<Longrightarrow> imdbID m \<noteq> []"
  by (induction rs) (auto simp: kept_results_Nil kept_results_Cons split: option.splits if_splits)

lemma add_results_first_seen:
  "foldl add_result (imdbID ` set seen_items, first_seen seen_items) rs
     = (imdbID ` set (seen_items @ kept_results rs), first_seen (seen_items @ kept_results rs))"
proof (induction rs arbitrary: seen_items)
  case Nil
  show ?case by (simp add: kept_results_Nil)
next
  case (Cons r rs)
  show ?case
  proof (cases r)
    case None
    then show ?thesis using Cons.IH [of seen_items]
      by (simp add: add_result_def kept_results_Cons)
  next
    case (Some m)
    show ?thesis
    proof (cases "imdbID m = []")
      case True
      with Some show ?thesis using Cons.IH [of seen_items]
        by (simp add: add_result_def kept_results_Cons)
    next
      case False
      have step: "add_result (imdbID ` set seen_items, first_seen seen_items) r
              = (imdbID ` set (seen_items @ [m]), first_seen (seen_items @ [m]))"
        using Some False by (auto simp: add_result_def first_seen_snoc)
      have "foldl add_result (imdbID ` set seen_items, first_seen seen_items) (r # rs)
              = foldl add_result
                  (add_result (imdbID ` set seen_items, first_seen seen_items) r) rs"
        by simp
      also have "\<dots> = foldl add_result
                  (imdbID ` set (seen_items @ [m]), first_seen (seen_items @ [m])) rs"
        by (simp only: step)
      also have "\<dots> = (imdbID ` set ((seen_items @ [m]) @ kept_results rs),
                         first_seen ((seen_items @ [m]) @ kept_results rs))"
        by (rule Cons.IH)
      also have "(seen_items @ [m]) @ kept_results rs = seen_items @ kept_results (r # rs)"
        using Some False by (simp add: kept_results_Cons)
      finally show ?thesis .
    qed
  qed
qed


lemma requests_search_step:
  "requests (push_request (ReqSearch page) (push_step (StepSearch page) dbg))
     = requests dbg @ [ReqSearch page]"
  by (simp add: push_request_def push_step_def)

lemma fetch_page_failed:
  "search page = SearchFailed err \<Longrightarrow>
   fetch_page search page seen cands dbg
     = Fatal err (push_request (ReqSearch page) (push_step (StepSearch page) dbg))"
  by (subst fetch_page.simps) (simp add: Let_def)

lemma fetch_page_empty:
  assumes "\<not> is_failed (search page)" and "page_items (search page) = []"
    and "search page = SearchNull \<or> (\<exists>e rs. search page = SearchJson ''False'' e rs)"
  shows "\<exists>dbg1. fetch_page search page seen cands dbg = Finish cands dbg1
           \<and> requests dbg1 = requests dbg @ [ReqSearch page]"
  using assms(3)
  by (subst fetch_page.simps)
     (auto simp: Let_def requests_search_step requests_push_step)

lemma fetch_page_results:
  assumes "search page = SearchJson r e rs" and "r \<noteq> ''False''"
  shows "fetch_page search page (imdbID ` set seen_items) (first_seen seen_items) dbg
     = (if page \<ge> MAX_PAGES \<or> length (first_seen (seen_items @ page_items (search page))) \<ge> 45
        then Finish (first_seen (seen_items @ page_items (search page)))
               (push_request (ReqSearch page) (push_step (StepSearch page) dbg))
        else fetch_page search (page + 1)
               (imdbID ` set (seen_items @ page_items (search page)))
               (first_seen (seen_items @ page_items (search page)))
               (push_request (ReqSearch page) (push_step (StepSearch page) dbg)))"
proof -
  have items: "page_items (search page) = kept_results (case rs of None \<Rightarrow> [] | Some x \<Rightarrow> x)"
    using assms by (simp add: page_items_def kept_results_Nil split: option.splits)
  show ?thesis
    unfolding items
    by (subst fetch_page.simps) (simp add: Let_def assms add_results_first_seen)
qed

lemma search_reply_cases:
  obtains (failed) err where "reply = SearchFailed err"
  | (empty) "\<not> is_failed reply" "page_items reply = []"
      "reply = SearchNull \<or> (\<exists>e rs. reply = SearchJson ''False'' e rs)"
  | (results) r e rs where "reply = SearchJson r e rs" "r \<noteq> ''False''"
proof (cases reply)
  case (SearchFailed err)
  then show ?thesis using failed by blast
next
  case SearchNull
  then show ?thesis using empty by (simp add: is_failed_def page_items_def)
next
  case (SearchJson r e rs)
  show ?thesis
  proof (cases "r = ''False''")
    case True
    have "page_items (SearchJson ''False'' e rs) = []"
      by (simp add: page_items_def split: option.splits)
    with True SearchJson show ?thesis using empty by (simp add: is_failed_def)
  next
    case False
    with SearchJson show ?thesis using results by blast
  qed
qed

lemma fetch_page_scan:
  "\<exists>k dbg1.
      page \<le> k
      \<and> requests dbg1 = requests dbg @ map ReqSearch [page..<Suc k]
      \<and> (\<forall>p \<in> set [page..<k]. has_results (search p))
      \<and> (is_failed (search k) \<longrightarrow>
           (\<exists>err. search k = SearchFailed err
              \<and> fetch_page search page (imdbID ` set seen_items) (first_seen seen_items) dbg
                  = Fatal err dbg1))
      \<and> (\<not> is_failed (search k) \<longrightarrow>
           fetch_page search page (imdbID ` set seen_items) (first_seen seen_items) dbg
             = Finish (first_seen (seen_items @ concat (map (\<lambda>p. page_items (search p))
                                                          [page..<Suc k]))) dbg1)"
proof (induction "MAX_PAGES - page" arbitrary: page seen_items dbg rule: less_induct)
  case less
  let ?dbg = "push_request (ReqSearch page) (push_step (StepSearch page) dbg)"
  have one: "[page..<Suc page] = [page]" by simp
  show ?case
  proof (cases "search page" rule: search_reply_cases)
    case (failed err)
    then show ?thesis
      using fetch_page_failed [of search page err "imdbID ` set seen_items" "first_seen seen_items" dbg]
      by (intro exI [of _ page] exI [of _ ?dbg])
         (simp add: requests_search_step is_failed_def)
  next
    case empty
    from fetch_page_empty [of search page "imdbID ` set seen_items" "first_seen seen_items" dbg] empty
    obtain dbg1 where
      "fetch_page search page (imdbID ` set seen_items) (first_seen seen_items) dbg
         = Finish (first_seen seen_items) dbg1"
      and "requests dbg1 = requests dbg @ [ReqSearch page]"
      by blast
    then show ?thesis
      using empty(1,2) by (intro exI [of _ page] exI [of _ dbg1]) simp
  next
    case (results r e rs)
    then have ok: "\<not> is_failed (search page)" and res: "has_results (search page)"
      by (simp_all add: is_failed_def has_results_def)
    let ?items = "seen_items @ page_items (search page)"
    have step: "fetch_page search page (imdbID ` set seen_items) (first_seen seen_items) dbg
     = (if page \<ge> MAX_PAGES \<or> length (first_seen ?items) \<ge> 45
        then Finish (first_seen ?items) ?dbg
        else fetch_page search (page + 1) (imdbID ` set ?items) (first_seen ?items) ?dbg)"
      using results by (rule fetch_page_results)
    show ?thesis
    proof (cases "page \<ge> MAX_PAGES \<or> length (first_seen ?items) \<ge> 45")
      case True
      with step have "fetch_page search page (imdbID ` set seen_items) (first_seen seen_items) dbg
          = Finish (first_seen ?items) ?dbg"
        by simp
      then show ?thesis
        using ok by (intro exI [of _ page] exI [of _ ?dbg]) (simp add: requests_search_step)
    next
      case False
      then have lt: "MAX_PAGES - (page + 1) < MAX_PAGES - page" by linarith
      from False step have rec:
        "fetch_page search page (imdbID ` set seen_items) (first_seen seen_items) dbg
           = fetch_page search (page + 1) (imdbID ` set ?items) (first_seen ?items) ?dbg"
        by simp
      from less [where page = "page + 1" and seen_items = ?items and dbg = ?dbg, OF lt]
      obtain k dbg1 where
        k: "page + 1 \<le> k"
        and req: "requests dbg1 = requests ?dbg @ map ReqSearch [page + 1..<Suc k]"
        and good: "\<forall>p \<in> set [page + 1..<k]. has_results (search p)"
        and bad: "is_failed (search k) \<longrightarrow>
           (\<exists>err. search k = SearchFailed err
              \<and> fetch_page search (page + 1) (imdbID ` set ?items) (first_seen ?items) ?dbg
                  = Fatal err dbg1)"
        and fin: "\<not> is_failed (search k) \<longrightarrow>
           fetch_page search (page + 1) (imdbID ` set ?items) (first_seen ?items) ?dbg
             = Finish (first_seen (?items @ concat (map (\<lambda>p. page_items (search p))
                                                     [page + 1..<Suc k]))) dbg1"
        by blast
      have up: "[page..<Suc k] = page # [page + 1..<Suc k]" and up': "[page..<k] = page # [page + 1..<k]"
        using k by (simp_all add: upt_conv_Cons)
      have "requests dbg1 = requests dbg @ map ReqSearch [page..<Suc k]"
        unfolding up req by (simp add: requests_search_step)
      moreover have "\<forall>p \<in> set [page..<k]. has_results (search p)"
        unfolding up' using good res by simp
      moreover have "seen_items @ concat (map (\<lambda>p. page_items (search p)) [page..<Suc k])
          = ?items @ concat (map (\<lambda>p. page_items (search p)) [page + 1..<Suc k])"
        unfolding up by simp
      ultimately show ?thesis
        using k bad fin rec
        by (intro exI [of _ k] exI [of _ dbg1]) (simp del: upt_Suc)
    qed
  qed
qed


lemma searched_pages_search: "List.map_filter (\<lambda>r. case r of ReqSearch p \<Rightarrow> Some p | ReqDetail i \<Rightarrow> None)
    (map ReqSearch ps) = ps"
  by (induction ps) (simp_all add: map_filter_simps)

lemma asked_details_search: "List.map_filter (\<lambda>r. case r of ReqSearch p \<Rightarrow> None | ReqDetail i \<Rightarrow> Some i)
    (map ReqSearch ps) = []"
  by (induction ps) (simp_all add: map_filter_simps)

lemma searched_pages_detail: "List.map_filter (\<lambda>r. case r of ReqSearch p \<Rightarrow> Some p | ReqDetail i \<Rightarrow> None)
    (map ReqDetail is) = []"
  by (induction "is") (simp_all add: map_filter_simps)

lemma map_filter_append: "List.map_filter f (xs @ ys) = List.map_filter f xs @ List.map_filter f ys"
  by (simp add: List.map_filter_def)

lemma has_results_not_failed: "has_results reply \<Longrightarrow> \<not> is_failed reply"
  by (cases reply) (simp_all add: has_results_def is_failed_def)

lemma page_items_ids: "m \<in> set (page_items reply) \<Longrightarrow> imdbID m \<noteq> []"
  by (auto simp: page_items_def dest: kept_results_ids split: search_reply.splits option.splits if_splits)

text \<open>The paging from page 1 with nothing seen, as \<open>omdb_search_then_fill\<close> starts it: it
  asks for the pages 1 to \<open>k\<close>, the pages before \<open>k\<close> have results, and it ends at \<open>k\<close> by
  the error of page \<open>k\<close>, or with the candidates of the pages in first-seen order.\<close>

lemma paging_from_start:
  "\<exists>k dbg1. 1 \<le> k
      \<and> searched_pages dbg1 = [1..<Suc k] \<and> asked_details dbg1 = []
      \<and> (\<forall>p \<in> set [1..<k]. has_results (search p))
      \<and> (is_failed (search k) \<longrightarrow>
           (\<exists>err. search k = SearchFailed err
              \<and> fetch_page search 1 {} [] \<lparr> steps = [], requests = [] \<rparr> = Fatal err dbg1))
      \<and> (\<not> is_failed (search k) \<longrightarrow>
           fetch_page search 1 {} [] \<lparr> steps = [], requests = [] \<rparr>
             = Finish (first_seen (concat (map (\<lambda>p. page_items (search p)) [1..<Suc k]))) dbg1)"
proof -
  from fetch_page_scan [of 1 "\<lparr> steps = [], requests = [] \<rparr>" search "[]"]
  obtain k dbg1 where k: "1 \<le> k"
    and req: "requests dbg1 = map ReqSearch [1..<Suc k]"
    and rest: "\<forall>p \<in> set [1..<k]. has_results (search p)"
      "is_failed (search k) \<longrightarrow>
           (\<exists>err. search k = SearchFailed err
              \<and> fetch_page search 1 {} [] \<lparr> steps = [], requests = [] \<rparr> = Fatal err dbg1)"
      "\<not> is_failed (search k) \<longrightarrow>
           fetch_page search 1 {} [] \<lparr> steps = [], requests = [] \<rparr>
             = Finish (first_seen (concat (map (\<lambda>p. page_items (search p)) [1..<Suc k]))) dbg1"
    by auto
  have "searched_pages dbg1 = [1..<Suc k]" and "asked_details dbg1 = []"
    unfolding searched_pages_def asked_details_def req
    by (rule searched_pages_search, rule asked_details_search)
  with k rest show ?thesis by blast
qed

text \<open>
  Claim C7. When the paging ends with candidates, no two candidates have the same id, every
  candidate has an id, and the candidates are the results of the pages asked for (those
  that are not \<open>null\<close> and have an id, page after page) in first-seen order: of the results
  that share an id, on one page or across pages, exactly the first is kept, in its place.
\<close>

theorem candidates_are_first_seen:
  assumes "fetch_page search 1 {} [] \<lparr> steps = [], requests = [] \<rparr> = Finish cands dbg"
  shows "distinct (map imdbID cands)
     \<and> (\<forall>c \<in> set cands. imdbID c \<noteq> [])
     \<and> cands = first_seen (concat (map (\<lambda>p. page_items (search p)) (searched_pages dbg)))
     \<and> imdbID ` set cands
         = imdbID ` set (concat (map (\<lambda>p. page_items (search p)) (searched_pages dbg)))"
proof -
  from paging_from_start [of search] assms obtain k where
    pages: "searched_pages dbg = [1..<Suc k]"
    and cands: "cands = first_seen (concat (map (\<lambda>p. page_items (search p)) [1..<Suc k]))"
    by (metis paging.distinct(1) paging.inject(2))
  let ?items = "concat (map (\<lambda>p. page_items (search p)) [1..<Suc k])"
  have "\<forall>c \<in> set ?items. imdbID c \<noteq> []"
    using page_items_ids by auto
  then have ids: "\<forall>c \<in> set cands. imdbID c \<noteq> []"
    unfolding cands using set_first_seen by blast
  have "distinct (map imdbID cands)"
    unfolding cands by (rule distinct_first_seen)
  moreover have "imdbID ` set cands = imdbID ` set ?items"
    unfolding cands by (rule ids_first_seen)
  ultimately show ?thesis
    using ids cands pages by simp
qed

lemma sample_paging:
  "fetch_page (sample_search ''science fiction'') 1 {} [] \<lparr> steps = [], requests = [] \<rparr>
     = Finish (map sample_hit [''tt1'', ''tt2'', ''tt3'', ''tt4'', ''tt5'', ''tt6''])
         \<lparr> steps = [StepSearch 1, StepSearch 2, StepSearch 3,
                    StepSearchPageEmpty 3 ''Movie not found!''],
           requests = [ReqSearch 1, ReqSearch 2, ReqSearch 3] \<rparr>"
  by (simp add: fetch_page.simps Let_def sample_search_def sample_hit_def sample_movie_def
        add_result_def push_step_def push_request_def MAX_PAGES_def)

theorem candidates_are_first_seen_witness:
  "fetch_page (sample_search ''science fiction'') 1 {} [] \<lparr> steps = [], requests = [] \<rparr>
     = Finish (map sample_hit [''tt1'', ''tt2'', ''tt3'', ''tt4'', ''tt5'', ''tt6''])
         \<lparr> steps = [StepSearch 1, StepSearch 2, StepSearch 3,
                    StepSearchPageEmpty 3 ''Movie not found!''],
           requests = [ReqSearch 1, ReqSearch 2, ReqSearch 3] \<rparr>
   \<and> distinct (map imdbID (map sample_hit [''tt1'', ''tt2'', ''tt3'', ''tt4'', ''tt5'', ''tt6'']))
   \<and> map sample_hit [''tt1'', ''tt2'', ''tt3'', ''tt4'', ''tt5'', ''tt6'']
       = first_seen (page_items (sample_search ''science fiction'' 1)
                     @ page_items (sample_search ''science fiction'' 2)
                     @ page_items (sample_search ''science fiction'' 3))
   \<and> page_items (sample_search ''science fiction'' 1) @ page_items (sample_search ''science fiction'' 2)
       = map sample_hit [''tt1'', ''tt2'', ''tt3'', ''tt3'', ''tt4'', ''tt1'', ''tt5'', ''tt6'']
   \<and> imdbID (sample_hit ''tt4'') \<noteq> []"
proof -
  have pages: "searched_pages \<lparr> steps = [StepSearch 1, StepSearch 2, StepSearch 3,
                    StepSearchPageEmpty 3 ''Movie not found!''],
           requests = [ReqSearch 1, ReqSearch 2, ReqSearch 3] \<rparr> = [1, 2, 3]"
    by (simp add: searched_pages_def map_filter_simps)
  have items: "page_items (sample_search ''science fiction'' 1) @ page_items (sample_search ''science fiction'' 2)
       = map sample_hit [''tt1'', ''tt2'', ''tt3'', ''tt3'', ''tt4'', ''tt1'', ''tt5'', ''tt6'']"
    by (simp add: page_items_def sample_search_def kept_results_def map_filter_simps
          sample_hit_def sample_movie_def)
  have cc: "concat (map (\<lambda>p. page_items (sample_search ''science fiction'' p)) [1, 2, 3])
      = page_items (sample_search ''science fiction'' 1)
        @ page_items (sample_search ''science fiction'' 2)
        @ page_items (sample_search ''science fiction'' 3)"
    by simp
  from candidates_are_first_seen [OF sample_paging]
  have d: "distinct (map imdbID (map sample_hit [''tt1'', ''tt2'', ''tt3'', ''tt4'', ''tt5'', ''tt6'']))"
    and f: "map sample_hit [''tt1'', ''tt2'', ''tt3'', ''tt4'', ''tt5'', ''tt6'']
       = first_seen (concat (map (\<lambda>p. page_items (sample_search ''science fiction'' p))
           (searched_pages \<lparr> steps = [StepSearch 1, StepSearch 2, StepSearch 3,
                    StepSearchPageEmpty 3 ''Movie not found!''],
           requests = [ReqSearch 1, ReqSearch 2, ReqSearch 3] \<rparr>)))"
    and ids: "\<forall>c \<in> set (map sample_hit [''tt1'', ''tt2'', ''tt3'', ''tt4'', ''tt5'', ''tt6'']).
                imdbID c \<noteq> []"
    by blast+
  have "sample_hit ''tt4'' \<in> set (map sample_hit [''tt1'', ''tt2'', ''tt3'', ''tt4'', ''tt5'', ''tt6''])"
    by simp
  with ids have id4: "imdbID (sample_hit ''tt4'') \<noteq> []" by blast
  from f have f': "map sample_hit [''tt1'', ''tt2'', ''tt3'', ''tt4'', ''tt5'', ''tt6'']
       = first_seen (page_items (sample_search ''science fiction'' 1)
                     @ page_items (sample_search ''science fiction'' 2)
                     @ page_items (sample_search ''science fiction'' 3))"
    unfolding pages cc .
  from sample_paging d f' items id4 show ?thesis by (intro conjI)
qed

section \<open>The pipeline as a whole\<close>

lemma searched_pages_append_details:
  "requests dbg1 = requests dbg @ detail_requests pre \<Longrightarrow>
   searched_pages dbg1 = searched_pages dbg"
  by (simp add: searched_pages_def detail_requests_def map_filter_append searched_pages_detail)

lemma finish_accepted:
  assumes "finish detail pf limit min_rating cands dbg = (err, movies, dbg1)"
  shows "err = None \<and> movies = take limit (accepted detail pf min_rating cands)
         \<and> searched_pages dbg1 = searched_pages dbg"
proof (cases "length cands = 0")
  case True
  with assms show ?thesis
    by (auto simp: finish_def Let_def accepted_Nil searched_pages_def push_step_def)
next
  case False
  let ?dbg = "push_step (StepFinalCandidates (length cands)) dbg"
  from False assms have run:
    "fetch_details_sequential detail pf cands 0 [] limit min_rating ?dbg = (err, movies, dbg1)"
    by (simp add: finish_def Let_def)
  from fetch_scan [of 0 cands cands detail pf "[]" limit min_rating ?dbg] run
  obtain pre where "requests dbg1 = requests ?dbg @ detail_requests pre"
    by auto
  then have "searched_pages dbg1 = searched_pages ?dbg"
    by (rule searched_pages_append_details)
  then have pages: "searched_pages dbg1 = searched_pages dbg"
    by (simp add: searched_pages_def push_step_def)
  have "err = None" and "movies = take limit (accepted detail pf min_rating cands)"
  proof -
    from fetch_scan [of 0 cands cands detail pf "[]" limit min_rating ?dbg] run
    obtain pre post where split: "cands = pre @ post"
      and e: "err = None" and m: "movies = accepted detail pf min_rating pre"
      and stop: "post = [] \<or> limit \<le> length (accepted detail pf min_rating pre)"
      and lst: "pre = [] \<or> length (accepted detail pf min_rating (butlast pre)) < limit"
      by auto
    have le: "length (accepted detail pf min_rating pre) \<le> limit"
    proof (cases "pre = []")
      case True
      then show ?thesis by (simp add: accepted_Nil)
    next
      case False
      then have "pre = butlast pre @ [List.last pre]" by simp
      then have "accepted detail pf min_rating pre
          = accepted detail pf min_rating (butlast pre) @ accepted detail pf min_rating [List.last pre]"
        by (metis accepted_append)
      moreover have "length (accepted detail pf min_rating [List.last pre]) \<le> 1"
        by (simp add: accepted_Cons accepted_Nil split: option.splits)
      ultimately show ?thesis using lst False by simp
    qed
    show "err = None" by (rule e)
    show "movies = take limit (accepted detail pf min_rating cands)"
    proof (cases "post = []")
      case True
      with split m le show ?thesis by simp
    next
      case False
      with stop le have "length (accepted detail pf min_rating pre) = limit" by simp
      with split m show ?thesis by (simp add: accepted_append)
    qed
  qed
  with pages show ?thesis by blast
qed


text \<open>
  Claim C1, as the code has it. The pipeline asks for the search pages 1, 2, \<dots> up to a
  last page, and every page before the last has results. A network or parse failure of a
  search page is fatal to the run: the pipeline hands the error of that page to its caller
  with no movies and sends no detail request, whatever candidates the earlier pages gave.
  When no page asked for failed (the last page may be empty, \<open>null\<close> or a \<open>Response\<close> of
  \<open>False\<close>, which ends the paging early), the pipeline reports no error and runs the detail
  phase on the candidates collected from the pages asked for, in first-seen order: the
  movies are the first \<open>limit\<close> accepted details of those candidates.
\<close>

theorem search_failure_is_fatal_empty_page_is_not:
  assumes "omdb_search_then_fill search detail pf search_term limit min_rating = (err, movies, dbg)"
  shows "(\<exists>k. 1 \<le> k \<and> searched_pages dbg = [1..<Suc k]
              \<and> (\<forall>p \<in> set [1..<k]. has_results (search search_term p)))
     \<and> ((\<exists>p \<in> set (searched_pages dbg). is_failed (search search_term p)) \<longrightarrow>
          err \<noteq> None
          \<and> (\<forall>e. err = Some e \<longrightarrow>
                 search search_term (List.last (searched_pages dbg)) = SearchFailed e)
          \<and> movies = [] \<and> asked_details dbg = [])
     \<and> ((\<forall>p \<in> set (searched_pages dbg). \<not> is_failed (search search_term p)) \<longrightarrow>
          err = None
          \<and> movies = take limit (accepted detail pf min_rating
                (first_seen (concat (map (\<lambda>p. page_items (search search_term p))
                                      (searched_pages dbg))))))"
proof -
  let ?s = "search search_term"
  from paging_from_start [of ?s] obtain k dbg1 where k: "1 \<le> k"
    and pages1: "searched_pages dbg1 = [1..<Suc k]" and det1: "asked_details dbg1 = []"
    and good: "\<forall>p \<in> set [1..<k]. has_results (?s p)"
    and bad: "is_failed (?s k) \<longrightarrow>
           (\<exists>e. ?s k = SearchFailed e
              \<and> fetch_page ?s 1 {} [] \<lparr> steps = [], requests = [] \<rparr> = Fatal e dbg1)"
    and fin: "\<not> is_failed (?s k) \<longrightarrow>
           fetch_page ?s 1 {} [] \<lparr> steps = [], requests = [] \<rparr>
             = Finish (first_seen (concat (map (\<lambda>p. page_items (?s p)) [1..<Suc k]))) dbg1"
    by blast
  have lastk: "List.last [1..<Suc k] = k" using k by simp
  have before: "\<forall>p \<in> set [1..<k]. \<not> is_failed (?s p)"
    using good has_results_not_failed by blast
  have mem: "set [1..<Suc k] = insert k (set [1..<k])" using k by auto
  show ?thesis
  proof (cases "is_failed (?s k)")
    case True
    with bad obtain e where e: "?s k = SearchFailed e"
      and f: "fetch_page ?s 1 {} [] \<lparr> steps = [], requests = [] \<rparr> = Fatal e dbg1"
      by blast
    from assms f have res: "err = Some e" "movies = []" "dbg = dbg1"
      by (simp_all add: omdb_search_then_fill_def)
    have "\<exists>k. 1 \<le> k \<and> searched_pages dbg = [1..<Suc k]
              \<and> (\<forall>p \<in> set [1..<k]. has_results (?s p))"
      using k pages1 good res(3) by blast
    moreover have "\<not> (\<forall>p \<in> set (searched_pages dbg). \<not> is_failed (?s p))"
      using True pages1 res(3) mem by simp
    moreover have "err \<noteq> None
          \<and> (\<forall>e. err = Some e \<longrightarrow> ?s (List.last (searched_pages dbg)) = SearchFailed e)
          \<and> movies = [] \<and> asked_details dbg = []"
      using res e pages1 det1 lastk by simp
    ultimately show ?thesis by blast
  next
    case False
    let ?cands = "first_seen (concat (map (\<lambda>p. page_items (?s p)) [1..<Suc k]))"
    from False fin have f: "fetch_page ?s 1 {} [] \<lparr> steps = [], requests = [] \<rparr> = Finish ?cands dbg1"
      by blast
    from assms f have "finish detail pf limit min_rating ?cands dbg1 = (err, movies, dbg)"
      by (simp add: omdb_search_then_fill_def)
    from finish_accepted [OF this]
    have err: "err = None" and mv: "movies = take limit (accepted detail pf min_rating ?cands)"
      and pages: "searched_pages dbg = [1..<Suc k]"
      using pages1 by simp_all
    have "\<exists>k. 1 \<le> k \<and> searched_pages dbg = [1..<Suc k]
              \<and> (\<forall>p \<in> set [1..<k]. has_results (?s p))"
      using k pages good by blast
    moreover have "\<not> (\<exists>p \<in> set (searched_pages dbg). is_failed (?s p))"
      unfolding pages mem using False before by simp
    moreover have "err = None
          \<and> movies = take limit (accepted detail pf min_rating
                (first_seen (concat (map (\<lambda>p. page_items (?s p)) (searched_pages dbg)))))"
      using err mv pages by simp
    ultimately show ?thesis by blast
  qed
qed

lemma sample_pipeline:
  "omdb_search_then_fill sample_search sample_detail sample_pf ''science fiction'' 3 8
     = (None,
        [sample_movie ''tt1'' ''9.1'', sample_movie ''tt3'' ''8.8'', sample_movie ''tt5'' ''8.0''],
        \<lparr> steps = [StepSearch 1, StepSearch 2, StepSearch 3,
                   StepSearchPageEmpty 3 ''Movie not found!'', StepFinalCandidates 6,
                   StepFilteredOut ''tt2'' ''7.5'', StepFilteredOut ''tt4'' ''N/A''],
          requests = [ReqSearch 1, ReqSearch 2, ReqSearch 3, ReqDetail ''tt1'', ReqDetail ''tt2'',
                      ReqDetail ''tt3'', ReqDetail ''tt4'', ReqDetail ''tt5''] \<rparr>)"
  by (simp add: omdb_search_then_fill_def finish_def fetch_page.simps
        fetch_details_sequential.simps Let_def sample_search_def sample_hit_def sample_movie_def
        sample_detail_def sample_pf_def passes_def add_result_def push_step_def push_request_def
        MAX_PAGES_def)

lemma broken_pipeline:
  "omdb_search_then_fill broken_search sample_detail sample_pf ''science fiction'' 3 8
     = (Some ''Response was not valid JSON.'', [],
        \<lparr> steps = [StepSearch 1, StepSearch 2, StepSearch 3],
          requests = [ReqSearch 1, ReqSearch 2, ReqSearch 3] \<rparr>)"
  by (simp add: omdb_search_then_fill_def fetch_page.simps Let_def broken_search_def
        sample_search_def sample_hit_def sample_movie_def add_result_def push_step_def
        push_request_def MAX_PAGES_def)

theorem search_failure_is_fatal_empty_page_is_not_witness:
  "omdb_search_then_fill sample_search sample_detail sample_pf ''science fiction'' 3 8
     = (None,
        [sample_movie ''tt1'' ''9.1'', sample_movie ''tt3'' ''8.8'', sample_movie ''tt5'' ''8.0''],
        \<lparr> steps = [StepSearch 1, StepSearch 2, StepSearch 3,
                   StepSearchPageEmpty 3 ''Movie not found!'', StepFinalCandidates 6,
                   StepFilteredOut ''tt2'' ''7.5'', StepFilteredOut ''tt4'' ''N/A''],
          requests = [ReqSearch 1, ReqSearch 2, ReqSearch 3, ReqDetail ''tt1'', ReqDetail ''tt2'',
                      ReqDetail ''tt3'', ReqDetail ''tt4'', ReqDetail ''tt5''] \<rparr>)
   \<and> \<not> is_failed (sample_search ''science fiction'' 1)
   \<and> \<not> is_failed (sample_search ''science fiction'' 2)
   \<and> \<not> is_failed (sample_search ''science fiction'' 3)
   \<and> \<not> has_results (sample_search ''science fiction'' 3)
   \<and> [sample_movie ''tt1'' ''9.1'', sample_movie ''tt3'' ''8.8'', sample_movie ''tt5'' ''8.0'']
       = take 3 (accepted sample_detail sample_pf 8
           (first_seen (concat (map (\<lambda>p. page_items (sample_search ''science fiction'' p))
                                 [1, 2, 3]))))
   \<and> is_failed (broken_search ''science fiction'' 3)
   \<and> broken_search ''science fiction'' 3 = SearchFailed ''Response was not valid JSON.''
   \<and> asked_details \<lparr> steps = [StepSearch 1, StepSearch 2, StepSearch 3],
                     requests = [ReqSearch 1, ReqSearch 2, ReqSearch 3] \<rparr> = []"
proof -
  let ?dbg = "\<lparr> steps = [StepSearch 1, StepSearch 2, StepSearch 3,
                   StepSearchPageEmpty 3 ''Movie not found!'', StepFinalCandidates 6,
                   StepFilteredOut ''tt2'' ''7.5'', StepFilteredOut ''tt4'' ''N/A''],
          requests = [ReqSearch 1, ReqSearch 2, ReqSearch 3, ReqDetail ''tt1'', ReqDetail ''tt2'',
                      ReqDetail ''tt3'', ReqDetail ''tt4'', ReqDetail ''tt5''] \<rparr>"
  let ?bad = "\<lparr> steps = [StepSearch 1, StepSearch 2, StepSearch 3],
                requests = [ReqSearch 1, ReqSearch 2, ReqSearch 3] \<rparr>"
  have pages: "searched_pages ?dbg = [1, 2, 3]" "searched_pages ?bad = [1, 2, 3]"
    by (simp_all add: searched_pages_def map_filter_simps)
  have ok: "\<not> is_failed (sample_search ''science fiction'' 1)"
      "\<not> is_failed (sample_search ''science fiction'' 2)"
      "\<not> is_failed (sample_search ''science fiction'' 3)"
      "\<not> has_results (sample_search ''science fiction'' 3)"
    by (simp_all add: is_failed_def has_results_def sample_search_def)
  have failed: "is_failed (broken_search ''science fiction'' 3)"
    by (simp add: is_failed_def broken_search_def)
  have all_ok: "\<forall>p \<in> set (searched_pages ?dbg). \<not> is_failed (sample_search ''science fiction'' p)"
    unfolding pages using ok by simp
  have some_bad: "\<exists>p \<in> set (searched_pages ?bad). is_failed (broken_search ''science fiction'' p)"
    unfolding pages using failed by simp
  from search_failure_is_fatal_empty_page_is_not [OF sample_pipeline] all_ok
  have good_run: "[sample_movie ''tt1'' ''9.1'', sample_movie ''tt3'' ''8.8'', sample_movie ''tt5'' ''8.0'']
       = take 3 (accepted sample_detail sample_pf 8
           (first_seen (concat (map (\<lambda>p. page_items (sample_search ''science fiction'' p))
                                 (searched_pages ?dbg)))))"
    by blast
  from search_failure_is_fatal_empty_page_is_not [OF broken_pipeline] some_bad
  have bad_run: "broken_search ''science fiction'' (List.last (searched_pages ?bad))
        = SearchFailed ''Response was not valid JSON.''"
    and none: "asked_details ?bad = []"
    by blast+
  from good_run have g: "[sample_movie ''tt1'' ''9.1'', sample_movie ''tt3'' ''8.8'', sample_movie ''tt5'' ''8.0'']
       = take 3 (accepted sample_detail sample_pf 8
           (first_seen (concat (map (\<lambda>p. page_items (sample_search ''science fiction'' p))
                                 [1, 2, 3]))))"
    unfolding pages .
  from bad_run have b: "broken_search ''science fiction'' 3 = SearchFailed ''Response was not valid JSON.''"
    unfolding pages by simp
  from sample_pipeline ok g failed b none show ?thesis by (intro conjI)
qed

text \<open>
  Claim C1 as written fails on the code. The first two search pages give six candidates,
  of which the detail phase would accept three; the third page is not valid JSON. The
  pipeline returns that error with no movies and its trail holds no detail request.
\<close>

theorem search_failure_discards_candidates_counterexample:
  "broken_search ''science fiction'' 3 = SearchFailed ''Response was not valid JSON.''
   \<and> first_seen (page_items (broken_search ''science fiction'' 1)
                 @ page_items (broken_search ''science fiction'' 2))
       = map sample_hit [''tt1'', ''tt2'', ''tt3'', ''tt4'', ''tt5'', ''tt6'']
   \<and> fetch_details_sequential sample_detail sample_pf
        (map sample_hit [''tt1'', ''tt2'', ''tt3'', ''tt4'', ''tt5'', ''tt6'']) 0 [] 3 8
        \<lparr> steps = [], requests = [] \<rparr>
       = (None,
          [sample_movie ''tt1'' ''9.1'', sample_movie ''tt3'' ''8.8'', sample_movie ''tt5'' ''8.0''],
          \<lparr> steps = [StepFilteredOut ''tt2'' ''7.5'', StepFilteredOut ''tt4'' ''N/A''],
            requests = map ReqDetail [''tt1'', ''tt2'', ''tt3'', ''tt4'', ''tt5''] \<rparr>)
   \<and> omdb_search_then_fill broken_search sample_detail sample_pf ''science fiction'' 3 8
       = (Some ''Response was not valid JSON.'', [],
          \<lparr> steps = [StepSearch 1, StepSearch 2, StepSearch 3],
            requests = [ReqSearch 1, ReqSearch 2, ReqSearch 3] \<rparr>)"
proof -
  have "broken_search ''science fiction'' 3 = SearchFailed ''Response was not valid JSON.''"
    by (simp add: broken_search_def)
  moreover have "first_seen (page_items (broken_search ''science fiction'' 1)
                 @ page_items (broken_search ''science fiction'' 2))
       = map sample_hit [''tt1'', ''tt2'', ''tt3'', ''tt4'', ''tt5'', ''tt6'']"
    by (simp add: page_items_def broken_search_def sample_search_def kept_results_def
          map_filter_simps sample_hit_def sample_movie_def)
  ultimately show ?thesis using sample_run broken_pipeline by (intro conjI)
qed

end
